theory Spec2Isabelle
  imports Main
begin

section \<open>skytools quoting.py: unescape and the logtriga partial-SQL parser\<close>

text \<open>
  The module is Python 2 (generators are advanced with \<open>tk.next()\<close>), so its strings are
  byte strings: \<open>string\<close> here, with \<open>char\<close> a byte. \<open>str.lower()\<close> is taken in the
  default C locale, where it changes the ASCII capitals only. Exceptions are values of
  \<open>exn\<close>; a function that can raise returns \<open>exn + 'a\<close>, with \<open>Inl\<close> the exception.
\<close>

subsection \<open>Exceptions and values\<close>

text \<open>
  Every \<open>tk.next()\<close> call of the three grammar drivers is a \<open>site\<close>. The model labels
  the \<open>StopIteration\<close> a call raises with the site of that call; the program never looks at
  the label (\<open>parse_sql\<close> catches every \<open>StopIteration\<close> alike).
\<close>

datatype site =
    I_open      \<comment> \<open>parse_insert: \<open>if tk.next() != "("\<close>\<close>
  | I_field     \<comment> \<open>parse_insert: \<open>fields.append(tk.next())\<close>\<close>
  | I_sep       \<comment> \<open>parse_insert: \<open>t = tk.next()\<close> of the first loop\<close>
  | I_keyword   \<comment> \<open>parse_insert: \<open>if tk.next().lower() != "values"\<close>\<close>
  | I_open2     \<comment> \<open>parse_insert: the second \<open>if tk.next() != "("\<close>\<close>
  | I_value     \<comment> \<open>parse_insert: \<open>t = tk.next()\<close> of the second loop\<close>
  | I_last      \<comment> \<open>parse_insert: the final \<open>tk.next()\<close>\<close>
  | UA_field    \<comment> \<open>parse_update, first loop: \<open>fields.append(tk.next())\<close>\<close>
  | UA_eq       \<comment> \<open>parse_update, first loop: \<open>if tk.next() != "="\<close>\<close>
  | UA_value    \<comment> \<open>parse_update, first loop: \<open>values.append(tk.next())\<close>\<close>
  | UA_sep      \<comment> \<open>parse_update, first loop: \<open>t = tk.next()\<close> before the "," / "where" test\<close>
  | UB_field    \<comment> \<open>parse_update, second loop: \<open>t = tk.next()\<close>\<close>
  | UB_eq       \<comment> \<open>parse_update, second loop: \<open>if tk.next() != "="\<close>\<close>
  | UB_value    \<comment> \<open>parse_update, second loop: \<open>values.append(tk.next())\<close>\<close>
  | UB_and      \<comment> \<open>parse_update, second loop: \<open>t = tk.next()\<close> before the "and" test\<close>
  | D_start     \<comment> \<open>parse_delete: \<open>t = tk.next()\<close> at the start of an iteration\<close>
  | D_eq        \<comment> \<open>parse_delete: \<open>if tk.next() != "="\<close>\<close>
  | D_value     \<comment> \<open>parse_delete: \<open>values.append(tk.next())\<close>\<close>

datatype exn =
    StopIteration site   \<comment> \<open>the token generator is exhausted\<close>
  | SyntaxError          \<comment> \<open>\<open>Exception("syntax error")\<close>\<close>
  | KeyError             \<comment> \<open>\<open>_esc_map[v]\<close> with \<open>v\<close> not a key\<close>
  | ValueError           \<comment> \<open>\<open>chr(n)\<close> with \<open>n\<close> not in \<open>range(256)\<close>, \<open>int(v, 8)\<close> on a non-number\<close>
  | IndexError           \<comment> \<open>\<open>k[0]\<close> on an empty string\<close>

datatype pyval = PyNone | PyStr string

subsection \<open>Characters\<close>

definition lower_chars :: string where
  "lower_chars = ''abcdefghijklmnopqrstuvwxyz''"

definition upper_chars :: string where
  "upper_chars = ''ABCDEFGHIJKLMNOPQRSTUVWXYZ''"

definition digit_chars :: string where
  "digit_chars = ''0123456789''"

definition octal_chars :: string where
  "octal_chars = ''01234567''"

text \<open>Space, tab, carriage return, newline: the class \<open>[ \t\r\n]\<close>.\<close>

definition ws_chars :: string where
  "ws_chars = [CHR '' '', CHR 0x09, CHR 0x0D, CHR 0x0A]"

definition lower_char :: "char \<Rightarrow> char" where
  "lower_char c = (case map_of (zip upper_chars lower_chars) c of None \<Rightarrow> c | Some l \<Rightarrow> l)"

text \<open>\<open>s.lower()\<close>\<close>

definition lower :: "string \<Rightarrow> string" where
  "lower s = map lower_char s"

subsection \<open>Regular expressions, matched by backtracking\<close>

text \<open>
  The fragment of Python's \<open>re\<close> the module uses: character classes, sequence,
  ordered alternation and the greedy star. \<open>rx_match r s\<close> lists what is left of \<open>s\<close>
  after each way \<open>r\<close> matches a prefix of it, in the order the backtracking matcher tries
  them: the left alternative before the right one, one more round of a star before
  leaving it. The match \<open>re\<close> reports is the first of the list. A round of a star that
  consumes nothing is not repeated.
\<close>

datatype rx = Cls "char \<Rightarrow> bool" | Seq rx rx | Alt rx rx | Star rx

function rx_match :: "rx \<Rightarrow> string \<Rightarrow> string list" where
  "rx_match (Cls p) s = (case s of [] \<Rightarrow> [] | c # cs \<Rightarrow> if p c then [cs] else [])"
| "rx_match (Seq r1 r2) s = concat (map (rx_match r2) (rx_match r1 s))"
| "rx_match (Alt r1 r2) s = rx_match r1 s @ rx_match r2 s"
| "rx_match (Star r) s =
     concat (map (\<lambda>s'. if length s' < length s then rx_match (Star r) s' else [])
                 (rx_match r s)) @ [s]"
  by pat_completeness auto
termination
  by (relation "measures [\<lambda>(r, s). size r, \<lambda>(r, s). length s]") auto

text \<open>The equation of the star unfolds without end as a rewrite rule.\<close>

declare rx_match.simps(4) [simp del]

text \<open>\<open>r+\<close>\<close>

definition Plus :: "rx \<Rightarrow> rx" where
  "Plus r = Seq r (Star r)"

text \<open>\<open>[...]\<close> and \<open>[^...]\<close>\<close>

definition in_class :: "string \<Rightarrow> char \<Rightarrow> bool" where
  "in_class cs c = (c \<in> set cs)"

definition not_in_class :: "string \<Rightarrow> char \<Rightarrow> bool" where
  "not_in_class cs c = (c \<notin> set cs)"

text \<open>
  A pattern \<open>pre(grp)\<close> matched at the start of \<open>s\<close>, as \<open>rc.match(s)\<close> does: the text
  of group 1 and the text after the end of the match, or \<open>None\<close> when nothing matches.
\<close>

definition match_group :: "rx \<Rightarrow> rx \<Rightarrow> string \<Rightarrow> (string \<times> string) option" where
  "match_group pre grp s =
     (case concat (map (\<lambda>s1. map (\<lambda>s2. (take (length s1 - length s2) s1, s2)) (rx_match grp s1))
                       (rx_match pre s)) of
        [] \<Rightarrow> None
      | m # _ \<Rightarrow> Some m)"

text \<open>A sufficient test that a pattern matches no empty text.\<close>

fun rx_nonempty :: "rx \<Rightarrow> bool" where
  "rx_nonempty (Cls p) = True"
| "rx_nonempty (Seq r1 r2) = (rx_nonempty r1 \<or> rx_nonempty r2)"
| "rx_nonempty (Alt r1 r2) = (rx_nonempty r1 \<and> rx_nonempty r2)"
| "rx_nonempty (Star r) = False"

lemma rx_match_shorter:
  "s' \<in> set (rx_match r s) \<Longrightarrow> length s' \<le> length s \<and> (rx_nonempty r \<longrightarrow> length s' < length s)"
proof (induction r s arbitrary: s' rule: rx_match.induct)
  case (1 p s)
  then show ?case by (auto split: list.splits if_splits)
next
  case (2 r1 r2 s)
  from "2.prems" obtain m where m: "m \<in> set (rx_match r1 s)" and s': "s' \<in> set (rx_match r2 m)"
    by auto
  from "2.IH"(1) [OF m] "2.IH"(2) [OF m s'] show ?case by auto
next
  case (3 r1 r2 s)
  then show ?case by auto
next
  case (4 r s)
  from "4.prems" have "s' = s \<or>
      (\<exists>m. m \<in> set (rx_match r s) \<and> length m < length s \<and> s' \<in> set (rx_match (Star r) m))"
    by (subst (asm) rx_match.simps(4)) (auto split: if_splits)
  then show ?case
  proof
    assume "s' = s"
    then show ?thesis by simp
  next
    assume "\<exists>m. m \<in> set (rx_match r s) \<and> length m < length s \<and> s' \<in> set (rx_match (Star r) m)"
    then obtain m where m: "m \<in> set (rx_match r s)" and lt: "length m < length s"
      and s': "s' \<in> set (rx_match (Star r) m)"
      by blast
    from "4.IH"(2) [OF m lt s'] lt show ?thesis by simp
  qed
qed

lemma match_group_Some:
  assumes "match_group pre grp s = Some (tok, rest)"
  shows "\<exists>s1. s1 \<in> set (rx_match pre s) \<and> rest \<in> set (rx_match grp s1) \<and>
              tok = take (length s1 - length rest) s1"
proof -
  define L where "L = concat (map (\<lambda>s1. map (\<lambda>s2. (take (length s1 - length s2) s1, s2))
                       (rx_match grp s1)) (rx_match pre s))"
  from assms have "(case L of [] \<Rightarrow> None | m # _ \<Rightarrow> Some m) = Some (tok, rest)"
    by (simp add: match_group_def L_def)
  then have "(tok, rest) \<in> set L"
    by (cases L) auto
  then show ?thesis
    unfolding L_def by auto
qed

lemma match_group_shorter:
  assumes "match_group pre grp s = Some (tok, rest)" and "rx_nonempty grp"
  shows "length rest < length s" and "tok \<noteq> []"
proof -
  from match_group_Some [OF assms(1)] obtain s1 where s1: "s1 \<in> set (rx_match pre s)"
    and rest: "rest \<in> set (rx_match grp s1)"
    and tok: "tok = take (length s1 - length rest) s1"
    by blast
  from rx_match_shorter [OF s1] rx_match_shorter [OF rest] assms(2)
  have "length rest < length s1" "length s1 \<le> length s" by auto
  then show "length rest < length s" and "tok \<noteq> []" using tok by auto
qed

subsection \<open>The escape decoder\<close>

text \<open>\<open>_esc_re = r"\\([0-7][0-7][0-7]|.)"\<close>; the dot matches any character but a newline.\<close>

definition esc_pre :: rx where
  "esc_pre = Cls (in_class [CHR 0x5C])"

definition esc_group :: rx where
  "esc_group =
     Alt (Seq (Cls (in_class octal_chars)) (Seq (Cls (in_class octal_chars)) (Cls (in_class octal_chars))))
         (Cls (not_in_class [CHR 0x0A]))"

text \<open>\<open>_esc_map\<close>: t, n, r, a, b, single quote, double quote, backslash.\<close>

definition esc_map :: "(string \<times> string) list" where
  "esc_map =
     [(''t'', [CHR 0x09]), (''n'', [CHR 0x0A]), (''r'', [CHR 0x0D]), (''a'', [CHR 0x07]),
      (''b'', [CHR 0x08]), ([CHR 0x27], [CHR 0x27]), ([CHR 0x22], [CHR 0x22]),
      ([CHR 0x5C], [CHR 0x5C])]"

text \<open>\<open>int(v, 8)\<close> on a string of octal digits; any other string is not a number here.\<close>

definition int8 :: "string \<Rightarrow> exn + nat" where
  "int8 v =
     (if v \<noteq> [] \<and> list_all (in_class octal_chars) v
      then Inr (foldl (\<lambda>a c. 8 * a + (of_char c - of_char (CHR ''0''))) 0 v)
      else Inl ValueError)"

text \<open>\<open>chr(n)\<close> of Python 2: a one-byte string, defined on \<open>range(256)\<close> only.\<close>

definition chr :: "nat \<Rightarrow> exn + string" where
  "chr n = (if n < 256 then Inr [char_of n] else Inl ValueError)"

definition sub_unescape :: "string \<Rightarrow> exn + string" where
  "sub_unescape v =
     (if length v = 1
      then (case map_of esc_map v of None \<Rightarrow> Inl KeyError | Some x \<Rightarrow> Inr x)
      else (case int8 v of Inl e \<Rightarrow> Inl e | Inr n \<Rightarrow> chr n))"

text \<open>
  \<open>_esc_rc.sub(_sub_unescape, val)\<close>: from left to right, a match is replaced by what
  \<open>_sub_unescape\<close> returns for it and the scan goes on after the match; a character where
  nothing matches is copied. The first call that raises ends the scan.
\<close>

function unescape :: "string \<Rightarrow> exn + string" where
  "unescape [] = Inr []"
| "unescape (c # cs) =
     (case match_group esc_pre esc_group (c # cs) of
        None \<Rightarrow> (case unescape cs of Inl e \<Rightarrow> Inl e | Inr out \<Rightarrow> Inr (c # out))
      | Some (v, rest) \<Rightarrow>
          (case sub_unescape v of
             Inl e \<Rightarrow> Inl e
           | Inr x \<Rightarrow> (case unescape rest of Inl e \<Rightarrow> Inl e | Inr out \<Rightarrow> Inr (x @ out))))"
  by pat_completeness auto
termination
proof (relation "measure length")
  fix c cs x2 v rest y
  assume "match_group esc_pre esc_group (c # cs) = Some x2" and "(v, rest) = x2"
  then have "match_group esc_pre esc_group (c # cs) = Some (v, rest)" by simp
  from match_group_shorter(1) [OF this]
  show "(rest, c # cs) \<in> measure length" by (simp add: esc_group_def)
qed auto

declare unescape.simps(2) [simp del]

text \<open>\<open>unescape_copy\<close>: the two characters backslash, N stand for \<open>None\<close>.\<close>

definition unescape_copy :: "string \<Rightarrow> exn + pyval" where
  "unescape_copy val =
     (if val = [CHR 0x5C, CHR ''N''] then Inr PyNone
      else (case unescape val of Inl e \<Rightarrow> Inl e | Inr s \<Rightarrow> Inr (PyStr s)))"

subsection \<open>The tokenizer\<close>

text \<open>
  \<open>token_re\<close>, compiled with \<open>re.X | re.I\<close>: blanks, then group 1, one of an identifier, a
  double-quoted name, a single-quoted string, one character that is not a blank. Under
  \<open>re.I\<close> the class \<open>[a-z]\<close> takes the ASCII letters of both cases.
\<close>

definition token_ws :: rx where
  "token_ws = Star (Cls (in_class ws_chars))"

definition token_group :: rx where
  "token_group =
     Alt (Seq (Cls (in_class (lower_chars @ upper_chars)))
              (Star (Cls (in_class (lower_chars @ upper_chars @ digit_chars @ ''_'')))))
    (Alt (Seq (Cls (in_class [CHR 0x22]))
              (Seq (Star (Alt (Plus (Cls (not_in_class [CHR 0x22, CHR 0x5C])))
                              (Seq (Cls (in_class [CHR 0x5C])) (Cls (not_in_class [CHR 0x0A])))))
                   (Cls (in_class [CHR 0x22]))))
    (Alt (Seq (Cls (in_class [CHR 0x27]))
              (Seq (Star (Alt (Plus (Cls (not_in_class [CHR 0x27, CHR 0x5C])))
                         (Alt (Seq (Cls (in_class [CHR 0x5C])) (Cls (not_in_class [CHR 0x0A])))
                              (Seq (Cls (in_class [CHR 0x27])) (Cls (in_class [CHR 0x27]))))))
                   (Cls (in_class [CHR 0x27]))))
         (Cls (not_in_class ws_chars))))"

lemma token_group_nonempty: "rx_nonempty token_group"
  by (simp add: token_group_def)

text \<open>
  The generator: match at \<open>pos\<close>, stop when nothing matches, else yield group 1 and go on
  from the end of the match. The model works on the text from \<open>pos\<close> on and returns the
  tokens the generator yields, in order. The generator is lazy, but it has no effect and
  cannot raise, so the list of all its tokens stands for it: \<open>tk.next()\<close> takes the head,
  and raises \<open>StopIteration\<close> on the empty list.
\<close>

function tokenizer :: "string \<Rightarrow> string list" where
  "tokenizer sql =
     (case match_group token_ws token_group sql of
        None \<Rightarrow> []
      | Some (tok, rest) \<Rightarrow> tok # tokenizer rest)"
  by pat_completeness auto
termination
proof (relation "measure length")
  fix sql x2 tok rest
  assume "match_group token_ws token_group sql = Some x2" and "(tok, rest) = x2"
  then have "match_group token_ws token_group sql = Some (tok, rest)" by simp
  from match_group_shorter(1) [OF this token_group_nonempty]
  show "(rest, sql) \<in> measure length" by simp
qed auto

declare tokenizer.simps [simp del]

subsection \<open>The grammar drivers\<close>

text \<open>
  A driver works on the token generator \<open>tk\<close> and the two lists \<open>fields\<close> and \<open>values\<close>
  of its caller, which it extends in place. It either returns (\<open>Done\<close>) or raises
  (\<open>Raise\<close>); both carry the tokens not yet taken and the two lists as they are then.
  Each \<open>while 1\<close> loop is a recursive function on the tokens left, and each \<open>tk.next()\<close>
  has its equation for the exhausted generator.
\<close>

record pstate =
  tk :: "string list"
  fields' :: "string list"
  values' :: "string list"

datatype outcome = Done pstate | Raise exn pstate

text \<open>\<open>parse_insert\<close>, last statement: \<open>tk.next()\<close>, the token thrown away.\<close>

fun insert_last :: "string list \<Rightarrow> string list \<Rightarrow> string list \<Rightarrow> outcome" where
  "insert_last [] fs vs = Raise (StopIteration I_last) \<lparr>tk = [], fields' = fs, values' = vs\<rparr>"
| "insert_last (t # ts) fs vs = Done \<lparr>tk = ts, fields' = fs, values' = vs\<rparr>"

text \<open>\<open>parse_insert\<close>, second loop: the values up to ")".\<close>

fun insert_values :: "string list \<Rightarrow> string list \<Rightarrow> string list \<Rightarrow> outcome" where
  "insert_values [] fs vs = Raise (StopIteration I_value) \<lparr>tk = [], fields' = fs, values' = vs\<rparr>"
| "insert_values (t # ts) fs vs =
     (if t = '')'' then insert_last ts fs vs
      else if t = '','' then insert_values ts fs vs
      else insert_values ts fs (vs @ [t]))"

text \<open>\<open>parse_insert\<close>, between the loops: the keyword and the second "(".\<close>

fun insert_open2 :: "string list \<Rightarrow> string list \<Rightarrow> string list \<Rightarrow> outcome" where
  "insert_open2 [] fs vs = Raise (StopIteration I_open2) \<lparr>tk = [], fields' = fs, values' = vs\<rparr>"
| "insert_open2 (t # ts) fs vs =
     (if t \<noteq> ''('' then Raise SyntaxError \<lparr>tk = ts, fields' = fs, values' = vs\<rparr>
      else insert_values ts fs vs)"

fun insert_keyword :: "string list \<Rightarrow> string list \<Rightarrow> string list \<Rightarrow> outcome" where
  "insert_keyword [] fs vs = Raise (StopIteration I_keyword) \<lparr>tk = [], fields' = fs, values' = vs\<rparr>"
| "insert_keyword (t # ts) fs vs =
     (if lower t \<noteq> ''values'' then Raise SyntaxError \<lparr>tk = ts, fields' = fs, values' = vs\<rparr>
      else insert_open2 ts fs vs)"

text \<open>\<open>parse_insert\<close>, first loop: the field names up to ")".\<close>

fun insert_fields :: "string list \<Rightarrow> string list \<Rightarrow> string list \<Rightarrow> outcome" where
  "insert_fields [] fs vs = Raise (StopIteration I_field) \<lparr>tk = [], fields' = fs, values' = vs\<rparr>"
| "insert_fields [f] fs vs = Raise (StopIteration I_sep) \<lparr>tk = [], fields' = fs @ [f], values' = vs\<rparr>"
| "insert_fields (f # t # ts) fs vs =
     (if t = '')'' then insert_keyword ts (fs @ [f]) vs
      else if t \<noteq> '','' then Raise SyntaxError \<lparr>tk = ts, fields' = fs @ [f], values' = vs\<rparr>
      else insert_fields ts (fs @ [f]) vs)"

fun parse_insert :: "string list \<Rightarrow> string list \<Rightarrow> string list \<Rightarrow> outcome" where
  "parse_insert [] fs vs = Raise (StopIteration I_open) \<lparr>tk = [], fields' = fs, values' = vs\<rparr>"
| "parse_insert (t # ts) fs vs =
     (if t \<noteq> ''('' then Raise SyntaxError \<lparr>tk = ts, fields' = fs, values' = vs\<rparr>
      else insert_fields ts fs vs)"

text \<open>\<open>parse_update\<close>, second loop: the conditions after "where". It has no exit but an exception.\<close>

fun update_where :: "string list \<Rightarrow> string list \<Rightarrow> string list \<Rightarrow> outcome" where
  "update_where [] fs vs = Raise (StopIteration UB_field) \<lparr>tk = [], fields' = fs, values' = vs\<rparr>"
| "update_where [f] fs vs = Raise (StopIteration UB_eq) \<lparr>tk = [], fields' = fs @ [f], values' = vs\<rparr>"
| "update_where [f, e] fs vs =
     (if e \<noteq> ''='' then Raise SyntaxError \<lparr>tk = [], fields' = fs @ [f], values' = vs\<rparr>
      else Raise (StopIteration UB_value) \<lparr>tk = [], fields' = fs @ [f], values' = vs\<rparr>)"
| "update_where [f, e, v] fs vs =
     (if e \<noteq> ''='' then Raise SyntaxError \<lparr>tk = [v], fields' = fs @ [f], values' = vs\<rparr>
      else Raise (StopIteration UB_and) \<lparr>tk = [], fields' = fs @ [f], values' = vs @ [v]\<rparr>)"
| "update_where (f # e # v # t # ts) fs vs =
     (if e \<noteq> ''='' then Raise SyntaxError \<lparr>tk = v # t # ts, fields' = fs @ [f], values' = vs\<rparr>
      else if lower t \<noteq> ''and''
        then Raise SyntaxError \<lparr>tk = ts, fields' = fs @ [f], values' = vs @ [v]\<rparr>
      else update_where ts (fs @ [f]) (vs @ [v]))"

text \<open>\<open>parse_update\<close>: the first loop, the assignments, which "where" leaves.\<close>

fun parse_update :: "string list \<Rightarrow> string list \<Rightarrow> string list \<Rightarrow> outcome" where
  "parse_update [] fs vs = Raise (StopIteration UA_field) \<lparr>tk = [], fields' = fs, values' = vs\<rparr>"
| "parse_update [f] fs vs = Raise (StopIteration UA_eq) \<lparr>tk = [], fields' = fs @ [f], values' = vs\<rparr>"
| "parse_update [f, e] fs vs =
     (if e \<noteq> ''='' then Raise SyntaxError \<lparr>tk = [], fields' = fs @ [f], values' = vs\<rparr>
      else Raise (StopIteration UA_value) \<lparr>tk = [], fields' = fs @ [f], values' = vs\<rparr>)"
| "parse_update [f, e, v] fs vs =
     (if e \<noteq> ''='' then Raise SyntaxError \<lparr>tk = [v], fields' = fs @ [f], values' = vs\<rparr>
      else Raise (StopIteration UA_sep) \<lparr>tk = [], fields' = fs @ [f], values' = vs @ [v]\<rparr>)"
| "parse_update (f # e # v # t # ts) fs vs =
     (if e \<noteq> ''='' then Raise SyntaxError \<lparr>tk = v # t # ts, fields' = fs @ [f], values' = vs\<rparr>
      else if t = '','' then parse_update ts (fs @ [f]) (vs @ [v])
      else if lower t = ''where'' then update_where ts (fs @ [f]) (vs @ [v])
      else Raise SyntaxError \<lparr>tk = ts, fields' = fs @ [f], values' = vs @ [v]\<rparr>)"

text \<open>\<open>parse_delete\<close>: one loop, with no exit but an exception; "and" is compared as it is.\<close>

fun parse_delete :: "string list \<Rightarrow> string list \<Rightarrow> string list \<Rightarrow> outcome" where
  "parse_delete [] fs vs = Raise (StopIteration D_start) \<lparr>tk = [], fields' = fs, values' = vs\<rparr>"
| "parse_delete (t # ts) fs vs =
     (if t = ''and'' then parse_delete ts fs vs
      else (case ts of
              [] \<Rightarrow> Raise (StopIteration D_eq) \<lparr>tk = [], fields' = fs @ [t], values' = vs\<rparr>
            | e # ts' \<Rightarrow>
                if e \<noteq> ''='' then Raise SyntaxError \<lparr>tk = ts', fields' = fs @ [t], values' = vs\<rparr>
                else (case ts' of
                        [] \<Rightarrow> Raise (StopIteration D_value) \<lparr>tk = [], fields' = fs @ [t], values' = vs\<rparr>
                      | v # ts'' \<Rightarrow> parse_delete ts'' (fs @ [t]) (vs @ [v]))))"

subsection \<open>The result assembler\<close>

text \<open>\<open>k[1:-1]\<close>: without the first and the last character.\<close>

definition strip_ends :: "string \<Rightarrow> string" where
  "strip_ends s = butlast (tl s)"

definition unquote_key :: "string \<Rightarrow> exn + string" where
  "unquote_key k =
     (case k of
        [] \<Rightarrow> Inl IndexError
      | c # _ \<Rightarrow> if c = CHR 0x22 then unescape (strip_ends k) else Inr k)"

definition unquote_value :: "string \<Rightarrow> exn + pyval" where
  "unquote_value v =
     (if length v = 4 \<and> lower v = ''null'' then Inr PyNone
      else (case v of
              [] \<Rightarrow> Inl IndexError
            | c # _ \<Rightarrow>
                if c = CHR 0x27
                then (case unescape (strip_ends v) of Inl e \<Rightarrow> Inl e | Inr s \<Rightarrow> Inr (PyStr s))
                else Inr (PyStr v)))"

text \<open>The loop of \<open>unquote_data\<close> over the zipped lists, \<open>data\<close> being the dict built so far.\<close>

fun unquote_loop :: "(string \<times> string) list \<Rightarrow> (string \<rightharpoonup> pyval) \<Rightarrow> exn + (string \<rightharpoonup> pyval)" where
  "unquote_loop [] data = Inr data"
| "unquote_loop ((k, v) # kvs) data =
     (case unquote_key k of
        Inl e \<Rightarrow> Inl e
      | Inr k' \<Rightarrow>
          (case unquote_value v of
             Inl e \<Rightarrow> Inl e
           | Inr v' \<Rightarrow> unquote_loop kvs (data(k' \<mapsto> v'))))"

definition unquote_data :: "string list \<Rightarrow> string list \<Rightarrow> exn + (string \<rightharpoonup> pyval)" where
  "unquote_data fs vs = unquote_loop (zip fs vs) Map.empty"

subsection \<open>The parser\<close>

text \<open>The state \<open>parse_sql\<close> starts from: a fresh generator and two empty lists.\<close>

definition init :: "string \<Rightarrow> pstate" where
  "init sql = \<lparr>tk = tokenizer sql, fields' = [], values' = []\<rparr>"

text \<open>The \<open>if\<close> / \<open>elif\<close> chain on \<open>op\<close>; with no branch taken nothing runs.\<close>

definition dispatch :: "string \<Rightarrow> pstate \<Rightarrow> outcome" where
  "dispatch op st =
     (if op = ''I'' then parse_insert (tk st) (fields' st) (values' st)
      else if op = ''U'' then parse_update (tk st) (fields' st) (values' st)
      else if op = ''D'' then parse_delete (tk st) (fields' st) (values' st)
      else Done st)"

text \<open>The body of the \<open>try\<close>: the chain, then \<open>raise Exception("syntax error")\<close>.\<close>

definition try_body :: "string \<Rightarrow> pstate \<Rightarrow> outcome" where
  "try_body op st =
     (case dispatch op st of
        Done st' \<Rightarrow> Raise SyntaxError st'
      | Raise e st' \<Rightarrow> Raise e st')"

text \<open>
  \<open>parse_sql\<close>: a \<open>StopIteration\<close> out of the body is caught and followed by the check of
  the two lists, every other exception passes; \<open>unquote_data\<close> runs outside the \<open>try\<close>.
\<close>

definition parse_sql :: "string \<Rightarrow> string \<Rightarrow> exn + (string \<rightharpoonup> pyval)" where
  "parse_sql op sql =
     (case try_body op (init sql) of
        Done st \<Rightarrow> unquote_data (fields' st) (values' st)
      | Raise e st \<Rightarrow>
          (case e of
             StopIteration x \<Rightarrow>
               if length (fields' st) = 0 \<or> length (fields' st) \<noteq> length (values' st)
               then Inl SyntaxError
               else unquote_data (fields' st) (values' st)
           | _ \<Rightarrow> Inl e))"

definition parse_logtriga_sql :: "string \<Rightarrow> string \<Rightarrow> exn + (string \<rightharpoonup> pyval)" where
  "parse_logtriga_sql op sql = parse_sql op sql"

subsection \<open>Auxiliary notions for the statements\<close>

text \<open>The state an outcome carries.\<close>

fun final :: "outcome \<Rightarrow> pstate" where
  "final (Done st) = st"
| "final (Raise e st) = st"

text \<open>
  For each operation tag, the \<open>tk.next()\<close> calls at which the generator can run out with the
  two lists non-empty and of equal length, so that the check of \<open>parse_sql\<close> passes.
\<close>

definition eos_sites :: "string \<Rightarrow> site set" where
  "eos_sites op =
     (if op = ''I'' then {I_value, I_last}
      else if op = ''U'' then {UA_field, UA_sep, UB_field, UB_and}
      else if op = ''D'' then {D_start}
      else {})"

text \<open>
  The comparison a driver makes on the token it takes at a site, read as "the token fails
  it": the driver raises the syntax error exactly then. At the sites without a comparison
  the token is stored or dropped whatever it is.
\<close>

fun fails_check :: "site \<Rightarrow> string \<Rightarrow> bool" where
  "fails_check I_open t = (t \<noteq> ''('')"
| "fails_check I_field t = False"
| "fails_check I_sep t = (t \<noteq> '')'' \<and> t \<noteq> '','')"
| "fails_check I_keyword t = (lower t \<noteq> ''values'')"
| "fails_check I_open2 t = (t \<noteq> ''('')"
| "fails_check I_value t = False"
| "fails_check I_last t = False"
| "fails_check UA_field t = False"
| "fails_check UA_eq t = (t \<noteq> ''='')"
| "fails_check UA_value t = False"
| "fails_check UA_sep t = (t \<noteq> '','' \<and> lower t \<noteq> ''where'')"
| "fails_check UB_field t = False"
| "fails_check UB_eq t = (t \<noteq> ''='')"
| "fails_check UB_value t = False"
| "fails_check UB_and t = (lower t \<noteq> ''and'')"
| "fails_check D_start t = False"
| "fails_check D_eq t = (t \<noteq> ''='')"
| "fails_check D_value t = False"

text \<open>A text between single quotes, for writing fragments down.\<close>

definition squote :: "string \<Rightarrow> string" where
  "squote s = CHR 0x27 # s @ [CHR 0x27]"

section \<open>Facts about the escape decoder\<close>

text \<open>What the pattern \<open>_esc_re\<close> matches at a position, case by case.\<close>

lemma esc_match_other: "c \<noteq> CHR 0x5C \<Longrightarrow> match_group esc_pre esc_group (c # cs) = None"
  by (simp add: match_group_def esc_pre_def in_class_def)


lemma esc_match_newline: "match_group esc_pre esc_group (CHR 0x5C # CHR 0x0A # cs) = None"
  by (simp add: match_group_def esc_pre_def esc_group_def in_class_def not_in_class_def octal_chars_def)

lemma esc_match_octal:
  "list_all (in_class octal_chars) [d1, d2, d3] \<Longrightarrow>
   match_group esc_pre esc_group (CHR 0x5C # d1 # d2 # d3 # cs) = Some ([d1, d2, d3], cs)"
  by (simp add: match_group_def esc_pre_def esc_group_def in_class_def)

lemma esc_match_single:
  "d \<noteq> CHR 0x0A \<Longrightarrow> \<not> (\<exists>d2 d3 r. cs = d2 # d3 # r \<and> list_all (in_class octal_chars) [d, d2, d3]) \<Longrightarrow>
   match_group esc_pre esc_group (CHR 0x5C # d # cs) = Some ([d], cs)"
  by (cases cs; cases "tl cs") (auto simp add: match_group_def esc_pre_def esc_group_def in_class_def not_in_class_def)


lemma unescape_other:
  "c \<noteq> CHR 0x5C \<Longrightarrow>
   unescape (c # cs) = (case unescape cs of Inl e \<Rightarrow> Inl e | Inr out \<Rightarrow> Inr (c # out))"
  by (simp add: unescape.simps(2) esc_match_other)


lemma unescape_newline:
  "unescape (CHR 0x5C # CHR 0x0A # cs) =
     (case unescape (CHR 0x0A # cs) of Inl e \<Rightarrow> Inl e | Inr out \<Rightarrow> Inr (CHR 0x5C # out))"
  by (simp add: unescape.simps(2) esc_match_newline)

lemma unescape_octal:
  "list_all (in_class octal_chars) [d1, d2, d3] \<Longrightarrow>
   unescape (CHR 0x5C # d1 # d2 # d3 # cs) =
     (case sub_unescape [d1, d2, d3] of
        Inl e \<Rightarrow> Inl e
      | Inr x \<Rightarrow> (case unescape cs of Inl e \<Rightarrow> Inl e | Inr out \<Rightarrow> Inr (x @ out)))"
  by (subst unescape.simps(2)) (simp add: esc_match_octal)

lemma unescape_single:
  "d \<noteq> CHR 0x0A \<Longrightarrow> \<not> (\<exists>d2 d3 r. cs = d2 # d3 # r \<and> list_all (in_class octal_chars) [d, d2, d3]) \<Longrightarrow>
   unescape (CHR 0x5C # d # cs) =
     (case sub_unescape [d] of
        Inl e \<Rightarrow> Inl e
      | Inr x \<Rightarrow> (case unescape cs of Inl e \<Rightarrow> Inl e | Inr out \<Rightarrow> Inr (x @ out)))"
  by (subst unescape.simps(2)) (simp add: esc_match_single)

lemma esc_map_not_octal: "map_of esc_map [d] = Some x \<Longrightarrow> \<not> in_class octal_chars d"
  by (auto simp: esc_map_def in_class_def octal_chars_def split: if_splits)

lemma esc_map_not_newline: "map_of esc_map [d] = Some x \<Longrightarrow> d \<noteq> CHR 0x0A"
  by (auto simp: esc_map_def split: if_splits)

lemma sub_unescape_single:
  "sub_unescape [d] = (case map_of esc_map [d] of None \<Rightarrow> Inl KeyError | Some x \<Rightarrow> Inr x)"
  by (simp add: sub_unescape_def)

lemma sub_unescape_octal:
  "sub_unescape [d1, d2, d3] = (case int8 [d1, d2, d3] of Inl e \<Rightarrow> Inl e | Inr n \<Rightarrow> chr n)"
  by (simp add: sub_unescape_def)

lemma unescape_append:
  "unescape pre = Inr out \<Longrightarrow> pre = [] \<or> last pre \<noteq> CHR 0x5C \<Longrightarrow>
   unescape (pre @ s) = (case unescape s of Inl e \<Rightarrow> Inl e | Inr r \<Rightarrow> Inr (out @ r))"
proof (induction pre arbitrary: out rule: length_induct)
  case (1 pre)
  have IH: "\<And>ys o'. length ys < length pre \<Longrightarrow> unescape ys = Inr o' \<Longrightarrow>
              ys = [] \<or> last ys \<noteq> CHR 0x5C \<Longrightarrow>
              unescape (ys @ s) = (case unescape s of Inl e \<Rightarrow> Inl e | Inr r \<Rightarrow> Inr (o' @ r))"
    using "1.IH" by blast
  show ?case
  proof (cases pre)
    case Nil
    with "1.prems" show ?thesis by (auto split: sum.splits)
  next
    case (Cons c cs)
    note pre = Cons
    have lastcs: "cs = [] \<or> last cs \<noteq> CHR 0x5C" using "1.prems"(2) pre by (auto split: if_splits)
    show ?thesis
    proof (cases "c = CHR 0x5C")
      case False
      from "1.prems"(1) pre False obtain o' where o': "unescape cs = Inr o'" and out: "out = c # o'"
        by (auto simp: unescape_other split: sum.splits)
      from IH [OF _ o' lastcs] pre
      have "unescape (cs @ s) = (case unescape s of Inl e \<Rightarrow> Inl e | Inr r \<Rightarrow> Inr (o' @ r))"
        by simp
      with False pre out show ?thesis by (simp add: unescape_other split: sum.splits)
    next
      case True
      with "1.prems"(2) pre obtain d ds where cs: "cs = d # ds" by (cases cs) auto
      show ?thesis
      proof (cases "d = CHR 0x0A")
        case nl: True
        from "1.prems"(1) pre True cs nl obtain o' where o': "unescape cs = Inr o'"
          and out: "out = CHR 0x5C # o'"
          by (auto simp: unescape_newline split: sum.splits)
        from IH [OF _ o' lastcs] pre
        have "unescape (cs @ s) = (case unescape s of Inl e \<Rightarrow> Inl e | Inr r \<Rightarrow> Inr (o' @ r))"
          by simp
        with True pre out cs nl show ?thesis by (simp add: unescape_newline split: sum.splits)
      next
        case nnl: False
        show ?thesis
        proof (cases "\<exists>d2 d3 r. ds = d2 # d3 # r \<and> list_all (in_class octal_chars) [d, d2, d3]")
          case oct: True
          then obtain d2 d3 r where ds: "ds = d2 # d3 # r"
            and o: "list_all (in_class octal_chars) [d, d2, d3]" by blast
          from "1.prems"(1) pre True cs ds o obtain x o' where x: "sub_unescape [d, d2, d3] = Inr x"
            and o': "unescape r = Inr o'" and out: "out = x @ o'"
            by (auto simp: unescape_octal split: sum.splits)
          have "r = [] \<or> last r \<noteq> CHR 0x5C" using lastcs cs ds by (auto split: if_splits)
          from IH [OF _ o' this] pre cs ds
          have "unescape (r @ s) = (case unescape s of Inl e \<Rightarrow> Inl e | Inr r \<Rightarrow> Inr (o' @ r))"
            by simp
          with True pre cs ds o x out show ?thesis
            by (simp add: unescape_octal split: sum.splits)
        next
          case noct: False
          from "1.prems"(1) pre True cs obtain x o' where x: "sub_unescape [d] = Inr x"
            and o': "unescape ds = Inr o'" and out: "out = x @ o'"
            by (auto simp: unescape_single [OF nnl noct] split: sum.splits)
          from x have "\<not> in_class octal_chars d"
            by (auto simp: sub_unescape_single split: option.splits dest: esc_map_not_octal)
          then have noct': "\<not> (\<exists>d2 d3 r. ds @ s = d2 # d3 # r \<and> list_all (in_class octal_chars) [d, d2, d3])"
            by simp
          have "ds = [] \<or> last ds \<noteq> CHR 0x5C" using lastcs cs by (auto split: if_splits)
          from IH [OF _ o' this] pre cs
          have "unescape (ds @ s) = (case unescape s of Inl e \<Rightarrow> Inl e | Inr r \<Rightarrow> Inr (o' @ r))"
            by simp
          with True pre cs x out show ?thesis
            by (simp add: unescape_single [OF nnl noct'] split: sum.splits)
        qed
      qed
    qed
  qed
qed

section \<open>Facts about the drivers and the parser\<close>

text \<open>
  Where a driver can run out of tokens, and how long the two lists are then. In
  \<open>parse_insert\<close> the values are still untouched before the second loop; in
  \<open>parse_update\<close> and \<open>parse_delete\<close> a field name without its value makes the list of
  fields the longer one.
\<close>

lemma insert_last_stop:
  "insert_last ts fs vs = Raise (StopIteration x) st \<Longrightarrow> x = I_last"
  by (cases ts) auto

lemma insert_values_stop:
  "insert_values ts fs vs = Raise (StopIteration x) st \<Longrightarrow> x \<in> {I_value, I_last}"
  by (induction ts fs vs rule: insert_values.induct) (auto split: if_splits dest: insert_last_stop)

lemma insert_open2_stop:
  "insert_open2 ts fs vs = Raise (StopIteration x) st \<Longrightarrow> x \<in> {I_value, I_last} \<or> values' st = vs"
  by (cases ts) (auto split: if_splits dest: insert_values_stop)

lemma insert_keyword_stop:
  "insert_keyword ts fs vs = Raise (StopIteration x) st \<Longrightarrow> x \<in> {I_value, I_last} \<or> values' st = vs"
  by (cases ts) (auto split: if_splits dest: insert_open2_stop)

lemma insert_fields_stop:
  "insert_fields ts fs vs = Raise (StopIteration x) st \<Longrightarrow> x \<in> {I_value, I_last} \<or> values' st = vs"
  by (induction ts fs vs rule: insert_fields.induct) (auto split: if_splits dest: insert_keyword_stop)

lemma parse_insert_stop:
  "parse_insert ts fs vs = Raise (StopIteration x) st \<Longrightarrow> x \<in> {I_value, I_last} \<or> values' st = vs"
  by (cases ts) (auto split: if_splits dest: insert_fields_stop)

lemma update_where_stop:
  "update_where ts fs vs = Raise (StopIteration x) st \<Longrightarrow> length fs = length vs \<Longrightarrow>
     x \<in> {UB_field, UB_and} \<or> length (fields' st) = Suc (length (values' st))"
  by (induction ts fs vs rule: update_where.induct) (auto split: if_splits)

lemma parse_update_stop:
  "parse_update ts fs vs = Raise (StopIteration x) st \<Longrightarrow> length fs = length vs \<Longrightarrow>
     x \<in> {UA_field, UA_sep, UB_field, UB_and} \<or> length (fields' st) = Suc (length (values' st))"
  by (induction ts fs vs rule: parse_update.induct) (auto split: if_splits dest: update_where_stop)

lemma parse_delete_stop:
  "parse_delete ts fs vs = Raise (StopIteration x) st \<Longrightarrow> length fs = length vs \<Longrightarrow>
     x = D_start \<or> length (fields' st) = Suc (length (values' st))"
  by (induction ts fs vs rule: parse_delete.induct) (auto split: if_splits list.splits)

lemma update_where_raises:
  "update_where ts fs vs = Raise e st \<Longrightarrow> e = SyntaxError \<or> (\<exists>x. e = StopIteration x)"
  by (induction ts fs vs rule: update_where.induct) (auto split: if_splits)

lemma update_where_not_Done: "update_where ts fs vs \<noteq> Done st"
  by (induction ts fs vs rule: update_where.induct) (auto split: if_splits)

lemma parse_update_not_Done: "parse_update ts fs vs \<noteq> Done st"
  by (induction ts fs vs rule: parse_update.induct) (auto split: if_splits simp: update_where_not_Done)

lemma parse_delete_not_Done: "parse_delete ts fs vs \<noteq> Done st"
  by (induction ts fs vs rule: parse_delete.induct) (auto split: if_splits list.splits)

lemma dispatch_stop:
  assumes "dispatch op (init sql) = Raise (StopIteration x) st"
  shows "x \<in> eos_sites op \<or> fields' st = [] \<or> length (fields' st) \<noteq> length (values' st)"
proof -
  consider "op = ''I''" | "op = ''U''" | "op = ''D''" | "op \<notin> {''I'', ''U'', ''D''}" by blast
  then show ?thesis
  proof cases
    case 1
    with assms have "parse_insert (tokenizer sql) [] [] = Raise (StopIteration x) st"
      by (simp add: dispatch_def init_def)
    from parse_insert_stop [OF this] 1 show ?thesis by (auto simp: eos_sites_def)
  next
    case 2
    with assms have "parse_update (tokenizer sql) [] [] = Raise (StopIteration x) st"
      by (simp add: dispatch_def init_def)
    from parse_update_stop [OF this] 2 show ?thesis by (auto simp: eos_sites_def)
  next
    case 3
    with assms have "parse_delete (tokenizer sql) [] [] = Raise (StopIteration x) st"
      by (simp add: dispatch_def init_def)
    from parse_delete_stop [OF this] 3 show ?thesis by (auto simp: eos_sites_def)
  next
    case 4
    with assms show ?thesis by (simp add: dispatch_def)
  qed
qed

lemma try_body_Raise:
  "try_body op st = Raise e st' \<longleftrightarrow>
     dispatch op st = Raise e st' \<or> (e = SyntaxError \<and> dispatch op st = Done st')"
  by (auto simp: try_body_def split: outcome.splits)

lemma try_body_not_Done: "try_body op st \<noteq> Done st'"
  by (simp add: try_body_def split: outcome.splits)

lemma parse_sql_Inr:
  assumes "parse_sql op sql = Inr m"
  shows "\<exists>x st. try_body op (init sql) = Raise (StopIteration x) st \<and> fields' st \<noteq> [] \<and>
           length (fields' st) = length (values' st) \<and> unquote_data (fields' st) (values' st) = Inr m"
proof (cases "try_body op (init sql)")
  case (Done st)
  then show ?thesis by (simp add: try_body_not_Done)
next
  case (Raise e st)
  with assms show ?thesis
    by (cases e) (auto simp: parse_sql_def split: if_splits)
qed

text \<open>A driver raises nothing but the syntax error and the end of the generator.\<close>

lemma insert_last_raises:
  "insert_last ts fs vs = Raise e st \<Longrightarrow> e = SyntaxError \<or> (\<exists>x. e = StopIteration x)"
  by (cases ts) auto

lemma insert_values_raises:
  "insert_values ts fs vs = Raise e st \<Longrightarrow> e = SyntaxError \<or> (\<exists>x. e = StopIteration x)"
  by (induction ts fs vs rule: insert_values.induct) (auto split: if_splits dest: insert_last_raises)

lemma insert_open2_raises:
  "insert_open2 ts fs vs = Raise e st \<Longrightarrow> e = SyntaxError \<or> (\<exists>x. e = StopIteration x)"
  by (cases ts) (auto split: if_splits dest: insert_values_raises)

lemma insert_keyword_raises:
  "insert_keyword ts fs vs = Raise e st \<Longrightarrow> e = SyntaxError \<or> (\<exists>x. e = StopIteration x)"
  by (cases ts) (auto split: if_splits dest: insert_open2_raises)

lemma insert_fields_raises:
  "insert_fields ts fs vs = Raise e st \<Longrightarrow> e = SyntaxError \<or> (\<exists>x. e = StopIteration x)"
  by (induction ts fs vs rule: insert_fields.induct) (auto split: if_splits dest: insert_keyword_raises)

lemma parse_insert_raises:
  "parse_insert ts fs vs = Raise e st \<Longrightarrow> e = SyntaxError \<or> (\<exists>x. e = StopIteration x)"
  by (cases ts) (auto split: if_splits dest: insert_fields_raises)

lemma parse_update_raises:
  "parse_update ts fs vs = Raise e st \<Longrightarrow> e = SyntaxError \<or> (\<exists>x. e = StopIteration x)"
  by (induction ts fs vs rule: parse_update.induct) (auto split: if_splits dest: update_where_raises)

lemma parse_delete_raises:
  "parse_delete ts fs vs = Raise e st \<Longrightarrow> e = SyntaxError \<or> (\<exists>x. e = StopIteration x)"
  by (induction ts fs vs rule: parse_delete.induct) (auto split: if_splits list.splits)

lemma dispatch_raises:
  "dispatch op st = Raise e st' \<Longrightarrow> e = SyntaxError \<or> (\<exists>x. e = StopIteration x)"
  by (auto simp: dispatch_def split: if_splits
      dest: parse_insert_raises parse_update_raises parse_delete_raises)

lemma try_body_raises:
  "try_body op st = Raise e st' \<Longrightarrow> e = SyntaxError \<or> (\<exists>x. e = StopIteration x)"
  by (auto simp: try_body_Raise dest: dispatch_raises)

text \<open>The two lists only ever take tokens of the generator, so no empty string.\<close>

lemma insert_last_nonempty:
  "[] \<notin> set ts \<Longrightarrow> [] \<notin> set fs \<Longrightarrow> [] \<notin> set vs \<Longrightarrow>
   [] \<notin> set (fields' (final (insert_last ts fs vs))) \<and>
   [] \<notin> set (values' (final (insert_last ts fs vs)))"
  by (cases ts) auto

lemma insert_values_nonempty:
  "[] \<notin> set ts \<Longrightarrow> [] \<notin> set fs \<Longrightarrow> [] \<notin> set vs \<Longrightarrow>
   [] \<notin> set (fields' (final (insert_values ts fs vs))) \<and>
   [] \<notin> set (values' (final (insert_values ts fs vs)))"
  by (induction ts fs vs rule: insert_values.induct) (simp_all add: insert_last_nonempty)

lemma insert_open2_nonempty:
  "[] \<notin> set ts \<Longrightarrow> [] \<notin> set fs \<Longrightarrow> [] \<notin> set vs \<Longrightarrow>
   [] \<notin> set (fields' (final (insert_open2 ts fs vs))) \<and>
   [] \<notin> set (values' (final (insert_open2 ts fs vs)))"
  by (cases ts) (simp_all add: insert_values_nonempty)

lemma insert_keyword_nonempty:
  "[] \<notin> set ts \<Longrightarrow> [] \<notin> set fs \<Longrightarrow> [] \<notin> set vs \<Longrightarrow>
   [] \<notin> set (fields' (final (insert_keyword ts fs vs))) \<and>
   [] \<notin> set (values' (final (insert_keyword ts fs vs)))"
  by (cases ts) (simp_all add: insert_open2_nonempty)

lemma insert_fields_nonempty:
  "[] \<notin> set ts \<Longrightarrow> [] \<notin> set fs \<Longrightarrow> [] \<notin> set vs \<Longrightarrow>
   [] \<notin> set (fields' (final (insert_fields ts fs vs))) \<and>
   [] \<notin> set (values' (final (insert_fields ts fs vs)))"
  by (induction ts fs vs rule: insert_fields.induct) (simp_all add: insert_keyword_nonempty)

lemma parse_insert_nonempty:
  "[] \<notin> set ts \<Longrightarrow> [] \<notin> set fs \<Longrightarrow> [] \<notin> set vs \<Longrightarrow>
   [] \<notin> set (fields' (final (parse_insert ts fs vs))) \<and>
   [] \<notin> set (values' (final (parse_insert ts fs vs)))"
  by (cases ts) (simp_all add: insert_fields_nonempty)

lemma update_where_nonempty:
  "[] \<notin> set ts \<Longrightarrow> [] \<notin> set fs \<Longrightarrow> [] \<notin> set vs \<Longrightarrow>
   [] \<notin> set (fields' (final (update_where ts fs vs))) \<and>
   [] \<notin> set (values' (final (update_where ts fs vs)))"
  by (induction ts fs vs rule: update_where.induct) simp_all

lemma parse_update_nonempty:
  "[] \<notin> set ts \<Longrightarrow> [] \<notin> set fs \<Longrightarrow> [] \<notin> set vs \<Longrightarrow>
   [] \<notin> set (fields' (final (parse_update ts fs vs))) \<and>
   [] \<notin> set (values' (final (parse_update ts fs vs)))"
  by (induction ts fs vs rule: parse_update.induct) (simp_all add: update_where_nonempty)

lemma parse_delete_nonempty:
  "[] \<notin> set ts \<Longrightarrow> [] \<notin> set fs \<Longrightarrow> [] \<notin> set vs \<Longrightarrow>
   [] \<notin> set (fields' (final (parse_delete ts fs vs))) \<and>
   [] \<notin> set (values' (final (parse_delete ts fs vs)))"
proof (induction ts fs vs rule: parse_delete.induct)
  case (1 fs vs)
  then show ?case by simp
next
  case (2 t ts fs vs)
  show ?case
  proof (cases "t = ''and''")
    case True
    with 2 show ?thesis by simp
  next
    case nand: False
    show ?thesis
    proof (cases ts)
      case Nil
      with nand "2.prems" show ?thesis by simp
    next
      case c1: (Cons e ts')
      show ?thesis
      proof (cases "e = ''=''")
        case False
        with nand c1 "2.prems" show ?thesis by simp
      next
        case eq: True
        show ?thesis
        proof (cases ts')
          case Nil
          with nand c1 eq "2.prems" show ?thesis by simp
        next
          case c2: (Cons v ts'')
          from "2.prems" c1 c2 have "[] \<notin> set ts''" "[] \<notin> set (fs @ [t])" "[] \<notin> set (vs @ [v])"
            by auto
          from "2.IH"(2) [OF nand c1 _ c2 this] eq nand c1 c2 show ?thesis by simp
        qed
      qed
    qed
  qed
qed

lemma dispatch_nonempty:
  "[] \<notin> set (tk st) \<Longrightarrow> [] \<notin> set (fields' st) \<Longrightarrow> [] \<notin> set (values' st) \<Longrightarrow>
   [] \<notin> set (fields' (final (dispatch op st))) \<and>
   [] \<notin> set (values' (final (dispatch op st)))"
  by (simp add: dispatch_def parse_insert_nonempty parse_update_nonempty parse_delete_nonempty)

lemma try_body_final: "final (try_body op st) = final (dispatch op st)"
  by (simp add: try_body_def split: outcome.splits)

text \<open>The tokens are not empty: group 1 of \<open>token_re\<close> takes at least one character.\<close>

lemma tokenizer_nonempty: "[] \<notin> set (tokenizer sql)"
proof (induction sql rule: tokenizer.induct)
  case (1 sql)
  show ?case
  proof (cases "match_group token_ws token_group sql")
    case None
    then show ?thesis by (subst tokenizer.simps) simp
  next
    case (Some x2)
    obtain tok rest where x2: "x2 = (tok, rest)" by (cases x2)
    from match_group_shorter(2) [OF Some [unfolded x2] token_group_nonempty]
    have "tok \<noteq> []" .
    moreover from "1.IH" [OF Some x2 [symmetric]] have "[] \<notin> set (tokenizer rest)" .
    ultimately show ?thesis using Some x2 by (subst tokenizer.simps) simp
  qed
qed

text \<open>What the escape decoder and the assembler can raise.\<close>

lemma sub_unescape_errors: "sub_unescape v = Inl e \<Longrightarrow> e = KeyError \<or> e = ValueError"
  by (auto simp: sub_unescape_def int8_def chr_def split: if_splits option.splits sum.splits)

lemma unescape_errors: "unescape s = Inl e \<Longrightarrow> e = KeyError \<or> e = ValueError"
proof (induction s rule: unescape.induct)
  case 1
  then show ?case by simp
next
  case (2 c cs)
  show ?case
  proof (cases "match_group esc_pre esc_group (c # cs)")
    case None
    with "2.prems" "2.IH"(1) show ?thesis
      by (auto simp: unescape.simps(2) split: sum.splits)
  next
    case (Some x2)
    obtain v rest where x2: "x2 = (v, rest)" by (cases x2)
    show ?thesis
    proof (cases "sub_unescape v")
      case (Inl e')
      with "2.prems" Some x2 have "e = e'" by (simp add: unescape.simps(2))
      with Inl show ?thesis by (auto dest: sub_unescape_errors)
    next
      case (Inr x)
      with "2.prems" Some x2 have "unescape rest = Inl e"
        by (auto simp: unescape.simps(2) split: sum.splits)
      with "2.IH"(2) [OF Some x2 [symmetric] Inr] show ?thesis by simp
    qed
  qed
qed

lemma unquote_key_errors:
  "unquote_key k = Inl e \<Longrightarrow> k \<noteq> [] \<Longrightarrow> e = KeyError \<or> e = ValueError"
  by (auto simp: unquote_key_def split: list.splits if_splits dest: unescape_errors)

lemma unquote_value_errors:
  "unquote_value v = Inl e \<Longrightarrow> v \<noteq> [] \<Longrightarrow> e = KeyError \<or> e = ValueError"
  by (auto simp: unquote_value_def split: list.splits if_splits sum.splits dest: unescape_errors)

lemma unquote_loop_errors:
  "unquote_loop kvs data = Inl e \<Longrightarrow> [] \<notin> fst ` set kvs \<Longrightarrow> [] \<notin> snd ` set kvs \<Longrightarrow>
   e = KeyError \<or> e = ValueError"
proof (induction kvs data rule: unquote_loop.induct)
  case (1 data)
  then show ?case by simp
next
  case (2 k v kvs data)
  from "2.prems" have k: "k \<noteq> []" and v: "v \<noteq> []" by auto
  show ?case
  proof (cases "unquote_key k")
    case (Inl e')
    with "2.prems"(1) have "e = e'" by simp
    with Inl k show ?thesis by (auto dest: unquote_key_errors)
  next
    case kk: (Inr k')
    show ?thesis
    proof (cases "unquote_value v")
      case (Inl e')
      with "2.prems"(1) kk have "e = e'" by simp
      with Inl v show ?thesis by (auto dest: unquote_value_errors)
    next
      case (Inr v')
      from "2.prems"(1) kk Inr have "unquote_loop kvs (data(k' \<mapsto> v')) = Inl e" by simp
      moreover have "[] \<notin> fst ` set kvs" "[] \<notin> snd ` set kvs" using "2.prems"(2,3) by auto
      ultimately show ?thesis by (rule "2.IH" [OF kk Inr])
    qed
  qed
qed

lemma unquote_data_errors:
  assumes "unquote_data fs vs = Inl e" and "[] \<notin> set fs" and "[] \<notin> set vs"
  shows "e = KeyError \<or> e = ValueError"
proof -
  have "[] \<notin> fst ` set (zip fs vs)" "[] \<notin> snd ` set (zip fs vs)"
    using assms(2,3) by (auto dest: set_zip_leftD set_zip_rightD)
  with assms(1) show ?thesis unfolding unquote_data_def by (rule unquote_loop_errors)
qed

text \<open>A dict that is returned has an entry for every pair of the two lists.\<close>

lemma unquote_loop_dom:
  "unquote_loop kvs data = Inr m \<Longrightarrow>
   dom data \<subseteq> dom m \<and>
   (\<forall>k \<in> fst ` set kvs. \<exists>k'. unquote_key k = Inr k' \<and> k' \<in> dom m) \<and>
   (\<forall>v \<in> snd ` set kvs. \<exists>v'. unquote_value v = Inr v')"
proof (induction kvs data rule: unquote_loop.induct)
  case (1 data)
  then show ?case by simp
next
  case (2 k v kvs data)
  from "2.prems" obtain k' v' where k': "unquote_key k = Inr k'" and v': "unquote_value v = Inr v'"
    and rest: "unquote_loop kvs (data(k' \<mapsto> v')) = Inr m"
    by (auto split: sum.splits)
  from "2.IH" [OF k' v' rest] have d: "dom (data(k' \<mapsto> v')) \<subseteq> dom m"
    and r: "\<forall>k \<in> fst ` set kvs. \<exists>k'. unquote_key k = Inr k' \<and> k' \<in> dom m"
    and w: "\<forall>v \<in> snd ` set kvs. \<exists>v'. unquote_value v = Inr v'"
    by blast+
  from d have "dom data \<subseteq> dom m" and "k' \<in> dom m" by auto
  with r w k' v' show ?case by simp
qed

lemma unquote_data_all:
  assumes "unquote_data fs vs = Inr m" and "length fs = length vs"
  shows "(\<forall>k \<in> set fs. \<exists>k'. unquote_key k = Inr k' \<and> k' \<in> dom m) \<and>
         (\<forall>v \<in> set vs. \<exists>v'. unquote_value v = Inr v')"
proof -
  from assms(2) have "fst ` set (zip fs vs) = set fs" and "snd ` set (zip fs vs) = set vs"
    by (metis list.set_map map_fst_zip, metis list.set_map map_snd_zip)
  with unquote_loop_dom [OF assms(1) [unfolded unquote_data_def]] show ?thesis by simp
qed

text \<open>\<open>parse_sql\<close> by the outcome of the \<open>try\<close> body.\<close>

lemma parse_sql_stop:
  "try_body op (init sql) = Raise (StopIteration x) st \<Longrightarrow> fields' st \<noteq> [] \<Longrightarrow>
   length (fields' st) = length (values' st) \<Longrightarrow>
   parse_sql op sql = unquote_data (fields' st) (values' st)"
  by (simp add: parse_sql_def)

lemma parse_sql_syntax:
  "try_body op (init sql) = Raise SyntaxError st \<Longrightarrow> parse_sql op sql = Inl SyntaxError"
  by (simp add: parse_sql_def)

lemma parse_sql_check:
  "try_body op (init sql) = Raise (StopIteration x) st \<Longrightarrow>
   fields' st = [] \<or> length (fields' st) \<noteq> length (values' st) \<Longrightarrow>
   parse_sql op sql = Inl SyntaxError"
  by (auto simp: parse_sql_def)

text \<open>When more tokens follow a complete Insert, the first of them is taken and dropped, and the driver returns.\<close>

lemma insert_last_more:
  "insert_last ts fs vs = Raise (StopIteration I_last) st \<Longrightarrow>
   insert_last (ts @ t # rest) fs vs = Done \<lparr>tk = rest, fields' = fields' st, values' = values' st\<rparr>"
  by (cases ts) auto

lemma insert_values_more:
  "insert_values ts fs vs = Raise (StopIteration I_last) st \<Longrightarrow>
   insert_values (ts @ t # rest) fs vs = Done \<lparr>tk = rest, fields' = fields' st, values' = values' st\<rparr>"
  by (induction ts fs vs rule: insert_values.induct) (auto simp: insert_last_more)

lemma insert_open2_more:
  "insert_open2 ts fs vs = Raise (StopIteration I_last) st \<Longrightarrow>
   insert_open2 (ts @ t # rest) fs vs = Done \<lparr>tk = rest, fields' = fields' st, values' = values' st\<rparr>"
  by (cases ts) (auto simp: insert_values_more split: if_splits)

lemma insert_keyword_more:
  "insert_keyword ts fs vs = Raise (StopIteration I_last) st \<Longrightarrow>
   insert_keyword (ts @ t # rest) fs vs = Done \<lparr>tk = rest, fields' = fields' st, values' = values' st\<rparr>"
  by (cases ts) (auto simp: insert_open2_more split: if_splits)

lemma insert_fields_more:
  "insert_fields ts fs vs = Raise (StopIteration I_last) st \<Longrightarrow>
   insert_fields (ts @ t # rest) fs vs = Done \<lparr>tk = rest, fields' = fields' st, values' = values' st\<rparr>"
  by (induction ts fs vs rule: insert_fields.induct) (auto simp: insert_keyword_more split: if_splits)

lemma parse_insert_more:
  "parse_insert ts fs vs = Raise (StopIteration I_last) st \<Longrightarrow>
   parse_insert (ts @ t # rest) fs vs = Done \<lparr>tk = rest, fields' = fields' st, values' = values' st\<rparr>"
  by (cases ts) (auto simp: insert_fields_more split: if_splits)

text \<open>Runs on concrete fragments.\<close>

lemma run_delete_one:
  "try_body ''D'' (init ''a = 1'') =
     Raise (StopIteration D_start) \<lparr>tk = [], fields' = [''a''], values' = [''1'']\<rparr>"
  by code_simp

lemma run_update_short:
  "try_body ''U'' (init ''a = 1'') =
     Raise (StopIteration UA_sep) \<lparr>tk = [], fields' = [''a''], values' = [''1'']\<rparr>"
  by code_simp

lemma run_insert_open:
  "try_body ''I'' (init ''(a) values (1'') =
     Raise (StopIteration I_value) \<lparr>tk = [], fields' = [''a''], values' = [''1'']\<rparr>"
  by code_simp

text \<open>The two remaining sites of \<open>eos_sites ''U''\<close> are reached with lists that pass the check.\<close>

lemma run_update_comma:
  "try_body ''U'' (init ''a = 1 ,'') =
     Raise (StopIteration UA_field) \<lparr>tk = [], fields' = [''a''], values' = [''1'']\<rparr>"
  by code_simp

lemma run_update_where:
  "try_body ''U'' (init ''a = 1 where'') =
     Raise (StopIteration UB_field) \<lparr>tk = [], fields' = [''a''], values' = [''1'']\<rparr>"
  by code_simp

lemma unquote_a_1: "unquote_data [''a''] [''1''] = Inr [''a'' \<mapsto> PyStr ''1'']"
  by (simp add: unquote_data_def unquote_key_def unquote_value_def)

lemma parse_delete_one: "parse_sql ''D'' ''a = 1'' = Inr [''a'' \<mapsto> PyStr ''1'']"
  using parse_sql_stop [OF run_delete_one] by (simp add: unquote_a_1)

lemma parse_update_short: "parse_sql ''U'' ''a = 1'' = Inr [''a'' \<mapsto> PyStr ''1'']"
  using parse_sql_stop [OF run_update_short] by (simp add: unquote_a_1)

lemma parse_insert_open: "parse_sql ''I'' ''(a) values (1'' = Inr [''a'' \<mapsto> PyStr ''1'']"
  using parse_sql_stop [OF run_insert_open] by (simp add: unquote_a_1)

lemma unescape_plain1: "c \<noteq> CHR 0x5C \<Longrightarrow> unescape [c] = Inr [c]"
  by (simp add: unescape_other)

lemma unquote_value_squote1:
  "c \<noteq> CHR 0x5C \<Longrightarrow> unquote_value (squote [c]) = Inr (PyStr [c])"
  by (simp add: unquote_value_def squote_def strip_ends_def unescape_plain1)

lemma lower_null: "lower ''null'' = ''null''"
  by code_simp

lemma unquote_value_null: "unquote_value ''null'' = Inr PyNone"
  by (simp add: unquote_value_def lower_null)

lemma unquote_key_plain: "k \<noteq> [] \<Longrightarrow> hd k \<noteq> CHR 0x22 \<Longrightarrow> unquote_key k = Inr k"
  by (cases k) (simp_all add: unquote_key_def)

text \<open>More runs on concrete fragments and escapes.\<close>

lemma tokens_insert_extra:
  "tokenizer (''(a) values ('' @ squote ''b'' @ '') x'') =
     [''('', ''a'', '')'', ''values'', ''('', squote ''b'', '')''] @ ''x'' # []"
  by code_simp

lemma run_insert_complete:
  "parse_insert [''('', ''a'', '')'', ''values'', ''('', squote ''b'', '')''] [] [] =
     Raise (StopIteration I_last) \<lparr>tk = [], fields' = [''a''], values' = [squote ''b'']\<rparr>"
  by code_simp

lemma run_insert_extra:
  "try_body ''I'' (init (''(a) values ('' @ squote ''b'' @ '') x'')) =
     Raise SyntaxError \<lparr>tk = [], fields' = [''a''], values' = [squote ''b'']\<rparr>"
  by code_simp

lemma run_insert_exact:
  "try_body ''I'' (init (''(a) values ('' @ squote ''b'' @ '')'')) =
     Raise (StopIteration I_last) \<lparr>tk = [], fields' = [''a''], values' = [squote ''b'']\<rparr>"
  by code_simp

lemma run_insert_unclosed:
  "try_body ''I'' (init (''(col1,col2) values ('' @ squote ''a'')) =
     Raise (StopIteration I_value)
       \<lparr>tk = [], fields' = [''col1'', ''col2''], values' = [squote ''a'']\<rparr>"
  by code_simp

lemma run_delete_upper:
  "try_body ''D'' (init (''pk1 = '' @ squote ''1'' @ '' AND pk2 = '' @ squote ''2'')) =
     Raise SyntaxError
       \<lparr>tk = [''='', squote ''2''], fields' = [''pk1'', ''AND''], values' = [squote ''1'']\<rparr>"
  by code_simp

lemma run_delete_lower:
  "try_body ''D'' (init (''pk1 = '' @ squote ''1'' @ '' and pk2 = '' @ squote ''2'')) =
     Raise (StopIteration D_start)
       \<lparr>tk = [], fields' = [''pk1'', ''pk2''], values' = [squote ''1'', squote ''2'']\<rparr>"
  by code_simp

lemma run_update_upper:
  "try_body ''U'' (init (''a = 1 where pk1 = '' @ squote ''1'' @ '' AND pk2 = '' @ squote ''2'')) =
     Raise (StopIteration UB_and)
       \<lparr>tk = [], fields' = [''a'', ''pk1'', ''pk2''],
        values' = [''1'', squote ''1'', squote ''2'']\<rparr>"
  by code_simp

lemma run_update_example:
  "try_body ''U'' (init (''col1 = '' @ squote ''x'' @ '', col2 = null where pk = '' @ squote ''1'')) =
     Raise (StopIteration UB_and)
       \<lparr>tk = [], fields' = [''col1'', ''col2'', ''pk''],
        values' = [squote ''x'', ''null'', squote ''1'']\<rparr>"
  by code_simp



lemma unquote_b: "unquote_data [''a''] [squote ''b''] = Inr [''a'' \<mapsto> PyStr ''b'']"
  by (simp add: unquote_data_def unquote_key_def unquote_value_squote1)

lemma unquote_pks:
  "unquote_data [''pk1'', ''pk2''] [squote ''1'', squote ''2''] =
     Inr [''pk1'' \<mapsto> PyStr ''1'', ''pk2'' \<mapsto> PyStr ''2'']"
  by (simp add: unquote_data_def unquote_key_def unquote_value_squote1)

lemma unquote_a_pks:
  "unquote_data [''a'', ''pk1'', ''pk2''] [''1'', squote ''1'', squote ''2''] =
     Inr [''a'' \<mapsto> PyStr ''1'', ''pk1'' \<mapsto> PyStr ''1'', ''pk2'' \<mapsto> PyStr ''2'']"
proof -
  have "unquote_value ''1'' = Inr (PyStr ''1'')" by (simp add: unquote_value_def)
  then show ?thesis
    by (simp add: unquote_data_def unquote_key_def unquote_value_squote1)
qed

lemma unquote_example:
  "unquote_data [''col1'', ''col2'', ''pk''] [squote ''x'', ''null'', squote ''1''] =
     Inr [''col1'' \<mapsto> PyStr ''x'', ''col2'' \<mapsto> PyNone, ''pk'' \<mapsto> PyStr ''1'']"
  by (simp add: unquote_data_def unquote_key_def unquote_value_squote1 unquote_value_null)

lemma chr_byte: "n < 256 \<Longrightarrow> chr n = Inr [char_of n]"
  by (simp add: chr_def)

lemma unescape_a: "unescape ''a'' = Inr ''a''"
  by (simp add: unescape_other)

lemma int8_101: "int8 ''101'' = Inr 65"
  by code_simp

lemma int8_400: "int8 ''400'' = Inr 256"
  by code_simp

lemma octal_101: "list_all (in_class octal_chars) ''101''"
  by code_simp

lemma octal_400: "list_all (in_class octal_chars) ''400''"
  by code_simp

lemma unescape_tab:
  "unescape [CHR ''a'', CHR 0x5C, CHR ''t'', CHR ''b''] = Inr [CHR ''a'', CHR 0x09, CHR ''b'']"
  by code_simp

lemma unescape_101: "unescape [CHR 0x5C, CHR ''1'', CHR ''0'', CHR ''1''] = Inr ''A''"
  by code_simp

lemma unescape_400: "unescape [CHR 0x5C, CHR ''4'', CHR ''0'', CHR ''0''] = Inl ValueError"
  by code_simp



text \<open>
  A token that fails the comparison of the site where the driver would otherwise have run
  out: the driver raises the syntax error there, with the rest of the tokens untouched.
\<close>

lemma insert_values_check:
  "insert_values ts fs vs = Raise (StopIteration x) st \<Longrightarrow> fails_check x t \<Longrightarrow>
   insert_values (ts @ t # rest) fs vs =
     Raise SyntaxError \<lparr>tk = rest, fields' = fields' st, values' = values' st\<rparr>"
  using insert_values_stop [of ts fs vs x st] by auto

lemma insert_open2_check:
  "insert_open2 ts fs vs = Raise (StopIteration x) st \<Longrightarrow> fails_check x t \<Longrightarrow>
   insert_open2 (ts @ t # rest) fs vs =
     Raise SyntaxError \<lparr>tk = rest, fields' = fields' st, values' = values' st\<rparr>"
  by (cases ts) (auto simp: insert_values_check split: if_splits)

lemma insert_keyword_check:
  "insert_keyword ts fs vs = Raise (StopIteration x) st \<Longrightarrow> fails_check x t \<Longrightarrow>
   insert_keyword (ts @ t # rest) fs vs =
     Raise SyntaxError \<lparr>tk = rest, fields' = fields' st, values' = values' st\<rparr>"
  by (cases ts) (auto simp: insert_open2_check split: if_splits)

lemma insert_fields_check:
  "insert_fields ts fs vs = Raise (StopIteration x) st \<Longrightarrow> fails_check x t \<Longrightarrow>
   insert_fields (ts @ t # rest) fs vs =
     Raise SyntaxError \<lparr>tk = rest, fields' = fields' st, values' = values' st\<rparr>"
  by (induction ts fs vs rule: insert_fields.induct)
     (auto simp: insert_keyword_check split: if_splits)

lemma parse_insert_check:
  "parse_insert ts fs vs = Raise (StopIteration x) st \<Longrightarrow> fails_check x t \<Longrightarrow>
   parse_insert (ts @ t # rest) fs vs =
     Raise SyntaxError \<lparr>tk = rest, fields' = fields' st, values' = values' st\<rparr>"
  by (cases ts) (auto simp: insert_fields_check split: if_splits)

lemma update_where_eq_fail:
  assumes "e \<noteq> ''=''"
  shows "update_where (f # e # rest) fs vs =
     Raise SyntaxError \<lparr>tk = rest, fields' = fs @ [f], values' = vs\<rparr>"
proof (cases rest)
  case Nil
  with assms show ?thesis by simp
next
  case (Cons v r)
  with assms show ?thesis by (cases r) simp_all
qed

lemma update_where_check:
  "update_where ts fs vs = Raise (StopIteration x) st \<Longrightarrow> fails_check x t \<Longrightarrow>
   update_where (ts @ t # rest) fs vs =
     Raise SyntaxError \<lparr>tk = rest, fields' = fields' st, values' = values' st\<rparr>"
  by (induction ts fs vs rule: update_where.induct)
     (auto simp: update_where_eq_fail split: if_splits)

lemma parse_update_eq_fail:
  assumes "e \<noteq> ''=''"
  shows "parse_update (f # e # rest) fs vs =
     Raise SyntaxError \<lparr>tk = rest, fields' = fs @ [f], values' = vs\<rparr>"
proof (cases rest)
  case Nil
  with assms show ?thesis by simp
next
  case (Cons v r)
  with assms show ?thesis by (cases r) simp_all
qed

lemma parse_update_check:
  "parse_update ts fs vs = Raise (StopIteration x) st \<Longrightarrow> fails_check x t \<Longrightarrow>
   parse_update (ts @ t # rest) fs vs =
     Raise SyntaxError \<lparr>tk = rest, fields' = fields' st, values' = values' st\<rparr>"
  by (induction ts fs vs rule: parse_update.induct)
     (auto simp: parse_update_eq_fail update_where_check split: if_splits)

lemma parse_delete_check:
  "parse_delete ts fs vs = Raise (StopIteration x) st \<Longrightarrow> fails_check x t \<Longrightarrow>
   parse_delete (ts @ t # rest) fs vs =
     Raise SyntaxError \<lparr>tk = rest, fields' = fields' st, values' = values' st\<rparr>"
proof (induction ts fs vs rule: parse_delete.induct)
  case (1 fs vs)
  then show ?case by simp
next
  case (2 t0 ts fs vs)
  show ?case
  proof (cases "t0 = ''and''")
    case True
    with 2 show ?thesis by simp
  next
    case nand: False
    show ?thesis
    proof (cases ts)
      case Nil
      with nand "2.prems" show ?thesis by auto
    next
      case c1: (Cons e ts')
      show ?thesis
      proof (cases "e = ''=''")
        case False
        with nand c1 "2.prems" show ?thesis by simp
      next
        case eq: True
        show ?thesis
        proof (cases ts')
          case Nil
          with nand c1 eq "2.prems" show ?thesis by auto
        next
          case c2: (Cons v ts'')
          from "2.prems" nand c1 eq c2
          have "parse_delete ts'' (fs @ [t0]) (vs @ [v]) = Raise (StopIteration x) st" by simp
          from "2.IH"(2) [OF nand c1 _ c2 this "2.prems"(2)] nand c1 eq c2
          show ?thesis by simp
        qed
      qed
    qed
  qed
qed

lemma dispatch_check:
  assumes "dispatch op \<lparr>tk = ts, fields' = [], values' = []\<rparr> = Raise (StopIteration x) st"
    and "fails_check x t"
  shows "dispatch op \<lparr>tk = ts @ t # rest, fields' = [], values' = []\<rparr> =
           Raise SyntaxError \<lparr>tk = rest, fields' = fields' st, values' = values' st\<rparr>"
  using assms
  by (auto simp: dispatch_def parse_insert_check parse_update_check parse_delete_check
      split: if_splits)

lemma tokens_delete_bad: "tokenizer ''a x 1'' = [''a''] @ ''x'' # [''1'']"
  by code_simp

lemma run_delete_field:
  "dispatch ''D'' \<lparr>tk = [''a''], fields' = [], values' = []\<rparr> =
     Raise (StopIteration D_eq) \<lparr>tk = [], fields' = [''a''], values' = []\<rparr>"
  by (simp add: dispatch_def)

lemma tokens_update_bad:
  "tokenizer ''a = 1 where b = 2 or c = 3'' =
     [''a'', ''='', ''1'', ''where'', ''b'', ''='', ''2''] @ ''or'' # [''c'', ''='', ''3'']"
  by code_simp

lemma run_update_cond:
  "dispatch ''U'' \<lparr>tk = [''a'', ''='', ''1'', ''where'', ''b'', ''='', ''2''], fields' = [], values' = []\<rparr> =
     Raise (StopIteration UB_and) \<lparr>tk = [], fields' = [''a'', ''b''], values' = [''1'', ''2'']\<rparr>"
  by code_simp

lemma lower_or: "lower ''or'' = ''or''"
  by code_simp

section \<open>The claims\<close>

subsection \<open>C1: where the end of the token stream means success\<close>

text \<open>
  C1, as the code has it. For the tags I, U and D, \<open>parse_sql\<close> returns a mapping only when
  the driver ran out of tokens with the two lists non-empty and of equal length, and that
  can happen only at the sites of \<open>eos_sites\<close>: for Insert in the loop of the values or at
  the token after ")", for Update at the field name or the separator of either loop, for
  Delete at the start of an iteration. Running out of tokens at any other site, or with the
  lists empty or of unequal length, and a driver that returns all end in the one syntax
  error. So does a token that fails a comparison: when the driver on the tokens \<open>ts\<close> runs
  out at a site and the fragment goes on with a token \<open>t\<close> that fails the comparison of
  that site (\<open>fails_check\<close>), the driver raises the syntax error at \<open>t\<close>, leaving the
  tokens after it, and \<open>parse_sql\<close> raises it too. A driver raises nothing else.
\<close>

theorem C1_end_of_stream:
  assumes "op \<in> {''I'', ''U'', ''D''}"
  shows "(\<forall>m. parse_sql op sql = Inr m \<longrightarrow>
            (\<exists>x st. try_body op (init sql) = Raise (StopIteration x) st \<and> x \<in> eos_sites op \<and>
                    fields' st \<noteq> [] \<and> length (fields' st) = length (values' st))) \<and>
         (\<forall>x st. try_body op (init sql) = Raise (StopIteration x) st \<and> x \<notin> eos_sites op \<longrightarrow>
            parse_sql op sql = Inl SyntaxError) \<and>
         (\<forall>x st. try_body op (init sql) = Raise (StopIteration x) st \<and>
                 (fields' st = [] \<or> length (fields' st) \<noteq> length (values' st)) \<longrightarrow>
            parse_sql op sql = Inl SyntaxError) \<and>
         (\<forall>ts t rest x st.
            tokenizer sql = ts @ t # rest \<and>
            dispatch op \<lparr>tk = ts, fields' = [], values' = []\<rparr> = Raise (StopIteration x) st \<and>
            fails_check x t \<longrightarrow>
            try_body op (init sql) =
              Raise SyntaxError \<lparr>tk = rest, fields' = fields' st, values' = values' st\<rparr> \<and>
            parse_sql op sql = Inl SyntaxError) \<and>
         (\<forall>e st. try_body op (init sql) = Raise e st \<and> (\<forall>x. e \<noteq> StopIteration x) \<longrightarrow>
            e = SyntaxError \<and> parse_sql op sql = Inl SyntaxError) \<and>
         (\<forall>st. dispatch op (init sql) = Done st \<longrightarrow> parse_sql op sql = Inl SyntaxError)"
proof (intro conjI allI impI)
  fix m assume "parse_sql op sql = Inr m"
  from parse_sql_Inr [OF this] obtain x st where
    t: "try_body op (init sql) = Raise (StopIteration x) st" and ne: "fields' st \<noteq> []"
    and len: "length (fields' st) = length (values' st)" by blast
  from t have "dispatch op (init sql) = Raise (StopIteration x) st"
    by (simp add: try_body_Raise)
  from dispatch_stop [OF this] ne len have "x \<in> eos_sites op" by simp
  with t ne len
  show "\<exists>x st. try_body op (init sql) = Raise (StopIteration x) st \<and> x \<in> eos_sites op \<and>
                    fields' st \<noteq> [] \<and> length (fields' st) = length (values' st)" by blast
next
  fix x st assume a: "try_body op (init sql) = Raise (StopIteration x) st \<and> x \<notin> eos_sites op"
  then have "dispatch op (init sql) = Raise (StopIteration x) st"
    by (simp add: try_body_Raise)
  from dispatch_stop [OF this] a
  have "fields' st = [] \<or> length (fields' st) \<noteq> length (values' st)" by simp
  with a show "parse_sql op sql = Inl SyntaxError" by (auto intro: parse_sql_check)
next
  fix x st assume "try_body op (init sql) = Raise (StopIteration x) st \<and>
                 (fields' st = [] \<or> length (fields' st) \<noteq> length (values' st))"
  then show "parse_sql op sql = Inl SyntaxError" by (auto intro: parse_sql_check)
next
  fix ts t rest x st
  assume a: "tokenizer sql = ts @ t # rest \<and>
            dispatch op \<lparr>tk = ts, fields' = [], values' = []\<rparr> = Raise (StopIteration x) st \<and>
            fails_check x t"
  then have "dispatch op (init sql) =
      Raise SyntaxError \<lparr>tk = rest, fields' = fields' st, values' = values' st\<rparr>"
    using dispatch_check [of op ts x st t rest] by (simp add: init_def)
  then show t: "try_body op (init sql) =
      Raise SyntaxError \<lparr>tk = rest, fields' = fields' st, values' = values' st\<rparr>"
    by (simp add: try_body_def)
  then show "parse_sql op sql = Inl SyntaxError" by (rule parse_sql_syntax)
next
  fix e st assume a: "try_body op (init sql) = Raise e st \<and> (\<forall>x. e \<noteq> StopIteration x)"
  with try_body_raises [of op "init sql" e st] show "e = SyntaxError" by auto
next
  fix e st assume a: "try_body op (init sql) = Raise e st \<and> (\<forall>x. e \<noteq> StopIteration x)"
  with try_body_raises [of op "init sql" e st] have "e = SyntaxError" by auto
  with a show "parse_sql op sql = Inl SyntaxError" by (auto intro: parse_sql_syntax)
next
  fix st assume "dispatch op (init sql) = Done st"
  then show "parse_sql op sql = Inl SyntaxError" by (simp add: parse_sql_def try_body_def)
qed

theorem C1_end_of_stream_witness:
  "''D'' \<in> {''I'', ''U'', ''D''} \<and> parse_sql ''D'' ''a = 1'' = Inr [''a'' \<mapsto> PyStr ''1''] \<and>
   (\<exists>x st. try_body ''D'' (init ''a = 1'') = Raise (StopIteration x) st \<and> x \<in> eos_sites ''D'' \<and>
           fields' st \<noteq> [] \<and> length (fields' st) = length (values' st)) \<and>
   fails_check D_eq ''x'' \<and>
   try_body ''D'' (init ''a x 1'') =
     Raise SyntaxError \<lparr>tk = [''1''], fields' = [''a''], values' = []\<rparr> \<and>
   parse_sql ''D'' ''a x 1'' = Inl SyntaxError \<and>
   fails_check UB_and ''or'' \<and>
   try_body ''U'' (init ''a = 1 where b = 2 or c = 3'') =
     Raise SyntaxError \<lparr>tk = [''c'', ''='', ''3''], fields' = [''a'', ''b''], values' = [''1'', ''2'']\<rparr> \<and>
   parse_sql ''U'' ''a = 1 where b = 2 or c = 3'' = Inl SyntaxError"
proof -
  have d: "''D'' \<in> {''I'', ''U'', ''D''}" and u: "''U'' \<in> {''I'', ''U'', ''D''}" by simp_all
  have fd: "fails_check D_eq ''x''" by simp
  have fu: "fails_check UB_and ''or''" by (simp add: lower_or)
  note ok = C1_end_of_stream [OF d, of "''a = 1''", THEN conjunct1, rule_format, OF parse_delete_one]
  note bad_d = C1_end_of_stream [OF d, of "''a x 1''", THEN conjunct2, THEN conjunct2, THEN conjunct2,
      THEN conjunct1, rule_format, OF conjI [OF tokens_delete_bad conjI [OF run_delete_field fd]]]
  note bad_u = C1_end_of_stream [OF u, of "''a = 1 where b = 2 or c = 3''", THEN conjunct2, THEN conjunct2,
      THEN conjunct2, THEN conjunct1, rule_format,
      OF conjI [OF tokens_update_bad conjI [OF run_update_cond fu]]]
  from bad_d have d1: "try_body ''D'' (init ''a x 1'') =
      Raise SyntaxError \<lparr>tk = [''1''], fields' = [''a''], values' = []\<rparr>"
    and d2: "parse_sql ''D'' ''a x 1'' = Inl SyntaxError" by simp_all
  from bad_u have u1: "try_body ''U'' (init ''a = 1 where b = 2 or c = 3'') =
      Raise SyntaxError \<lparr>tk = [''c'', ''='', ''3''], fields' = [''a'', ''b''], values' = [''1'', ''2'']\<rparr>"
    and u2: "parse_sql ''U'' ''a = 1 where b = 2 or c = 3'' = Inl SyntaxError" by simp_all
  show ?thesis
    by (intro conjI d parse_delete_one ok fd d1 d2 fu u1 u2)
qed

text \<open>
  As stated, C1 has one point per driver (Insert: the token after ")"; Update: the "and"
  test). The Update fragment \<open>a = 1\<close> runs out at the separator of the first loop and
  parses; the Insert fragment \<open>(a) values (1\<close> runs out inside the loop of the values and
  parses.
\<close>

theorem C1_end_of_stream_counterexample:
  "try_body ''U'' (init ''a = 1'') =
     Raise (StopIteration UA_sep) \<lparr>tk = [], fields' = [''a''], values' = [''1'']\<rparr> \<and>
   parse_sql ''U'' ''a = 1'' = Inr [''a'' \<mapsto> PyStr ''1''] \<and>
   try_body ''I'' (init ''(a) values (1'') =
     Raise (StopIteration I_value) \<lparr>tk = [], fields' = [''a''], values' = [''1'']\<rparr> \<and>
   parse_sql ''I'' ''(a) values (1'' = Inr [''a'' \<mapsto> PyStr ''1'']"
  by (simp add: run_update_short parse_update_short run_insert_open parse_insert_open)

subsection \<open>C2: the two lists of a successful parse\<close>

text \<open>
  C2. Whenever \<open>parse_sql\<close> returns a mapping, the list of fields and the list of values
  the driver left are of equal length, and that length is at least 1.
\<close>

theorem C2_counts:
  "parse_sql op sql = Inr m \<Longrightarrow>
     \<exists>x st. try_body op (init sql) = Raise (StopIteration x) st \<and>
            length (fields' st) = length (values' st) \<and> 1 \<le> length (fields' st)"
  using parse_sql_Inr [of op sql m] by (fastforce simp: Suc_le_eq)

theorem C2_counts_witness:
  "\<exists>x st. try_body ''D'' (init ''a = 1'') = Raise (StopIteration x) st \<and>
          length (fields' st) = length (values' st) \<and> 1 \<le> length (fields' st)"
  by (rule C2_counts [OF parse_delete_one])

subsection \<open>C3: the token after the closing parenthesis of an Insert\<close>

text \<open>
  C3, as the code has it. Let \<open>ts\<close> be tokens on which \<open>parse_insert\<close> runs out at its last
  \<open>tk.next()\<close>, after the ")" of the values. On exactly these tokens the body of the \<open>try\<close>
  ends with that \<open>StopIteration\<close>, the only way past the final \<open>raise\<close>. With one more token
  \<open>t\<close> (and whatever follows it) the driver takes \<open>t\<close>, drops it and returns with the two
  lists unchanged, and \<open>parse_sql\<close> raises the syntax error.
\<close>

theorem C3_insert_extra_token:
  assumes "parse_insert ts [] [] = Raise (StopIteration I_last) st"
  shows "(tokenizer sql = ts \<longrightarrow>
            try_body ''I'' (init sql) = Raise (StopIteration I_last) st) \<and>
         (tokenizer sql = ts @ t # rest \<longrightarrow>
            dispatch ''I'' (init sql) =
              Done \<lparr>tk = rest, fields' = fields' st, values' = values' st\<rparr> \<and>
            parse_sql ''I'' sql = Inl SyntaxError)"
proof (intro conjI impI)
  assume "tokenizer sql = ts"
  with assms show "try_body ''I'' (init sql) = Raise (StopIteration I_last) st"
    by (simp add: try_body_def dispatch_def init_def)
next
  assume "tokenizer sql = ts @ t # rest"
  with parse_insert_more [OF assms, of t rest]
  show d: "dispatch ''I'' (init sql) =
      Done \<lparr>tk = rest, fields' = fields' st, values' = values' st\<rparr>"
    by (simp add: dispatch_def init_def)
  then show "parse_sql ''I'' sql = Inl SyntaxError"
    by (simp add: parse_sql_def try_body_def)
qed

theorem C3_insert_extra_token_witness:
  "dispatch ''I'' (init (''(a) values ('' @ squote ''b'' @ '') x'')) =
     Done \<lparr>tk = [], fields' = [''a''], values' = [squote ''b'']\<rparr> \<and>
   parse_sql ''I'' (''(a) values ('' @ squote ''b'' @ '') x'') = Inl SyntaxError"
  using C3_insert_extra_token [OF run_insert_complete,
      of "''(a) values ('' @ squote ''b'' @ '') x''" "''x''" "[]"] tokens_insert_extra
  by simp

text \<open>
  As stated, C3 lets an Insert with exactly one token after the closing ")" parse. The
  fragment \<open>(a) values ('b') x\<close> has the one extra token \<open>x\<close> and raises the syntax error;
  without it the fragment parses.
\<close>

theorem C3_insert_extra_token_counterexample:
  "tokenizer (''(a) values ('' @ squote ''b'' @ '') x'') =
     [''('', ''a'', '')'', ''values'', ''('', squote ''b'', '')'', ''x''] \<and>
   parse_sql ''I'' (''(a) values ('' @ squote ''b'' @ '') x'') = Inl SyntaxError \<and>
   parse_sql ''I'' (''(a) values ('' @ squote ''b'' @ '')'') = Inr [''a'' \<mapsto> PyStr ''b'']"
  using tokens_insert_extra parse_sql_syntax [OF run_insert_extra]
    parse_sql_stop [OF run_insert_exact]
  by (simp add: unquote_b)

subsection \<open>C4: the letter case of "and" in a Delete\<close>

text \<open>
  C4 asks that the Delete driver skips "and" in any letter case. \<open>parse_delete\<close> compares
  \<open>t == "and"\<close> as it is, where \<open>parse_update\<close> compares \<open>t.lower()\<close>: on
  \<open>pk1 = '1' AND pk2 = '2'\<close> the token \<open>AND\<close> is appended as a field and the parse raises
  the syntax error, while the same fragment with \<open>and\<close> parses, and so does an Update whose
  conditions are joined by \<open>AND\<close>.
\<close>

theorem C4_delete_and_case:
  "try_body ''D'' (init (''pk1 = '' @ squote ''1'' @ '' AND pk2 = '' @ squote ''2'')) =
     Raise SyntaxError
       \<lparr>tk = [''='', squote ''2''], fields' = [''pk1'', ''AND''], values' = [squote ''1'']\<rparr> \<and>
   parse_sql ''D'' (''pk1 = '' @ squote ''1'' @ '' AND pk2 = '' @ squote ''2'') = Inl SyntaxError \<and>
   parse_sql ''D'' (''pk1 = '' @ squote ''1'' @ '' and pk2 = '' @ squote ''2'') =
     Inr [''pk1'' \<mapsto> PyStr ''1'', ''pk2'' \<mapsto> PyStr ''2''] \<and>
   parse_sql ''U'' (''a = 1 where pk1 = '' @ squote ''1'' @ '' AND pk2 = '' @ squote ''2'') =
     Inr [''a'' \<mapsto> PyStr ''1'', ''pk1'' \<mapsto> PyStr ''1'', ''pk2'' \<mapsto> PyStr ''2'']"
  using run_delete_upper parse_sql_syntax [OF run_delete_upper]
    parse_sql_stop [OF run_delete_lower] parse_sql_stop [OF run_update_upper]
  by (simp add: unquote_pks unquote_a_pks)

subsection \<open>C5: no partial result\<close>

text \<open>
  C5. The Insert fragment \<open>(col1,col2) values ('a'\<close> runs out of tokens with two fields and
  one value collected, and \<open>parse_sql\<close> raises the syntax error: what was collected is
  dropped. In general a mapping is returned only as the whole of \<open>unquote_data\<close> on the two
  lists: every field of the list has its decoded name among the keys and every value
  decoded; any failure is an exception, which carries no mapping.
\<close>

theorem C5_no_partial_result:
  "try_body ''I'' (init (''(col1,col2) values ('' @ squote ''a'')) =
     Raise (StopIteration I_value)
       \<lparr>tk = [], fields' = [''col1'', ''col2''], values' = [squote ''a'']\<rparr> \<and>
   parse_sql ''I'' (''(col1,col2) values ('' @ squote ''a'') = Inl SyntaxError \<and>
   (\<forall>op sql m. parse_sql op sql = Inr m \<longrightarrow>
      (\<exists>x st. try_body op (init sql) = Raise (StopIteration x) st \<and>
              unquote_data (fields' st) (values' st) = Inr m \<and>
              (\<forall>k \<in> set (fields' st). \<exists>k'. unquote_key k = Inr k' \<and> k' \<in> dom m) \<and>
              (\<forall>v \<in> set (values' st). \<exists>v'. unquote_value v = Inr v')))"
proof (intro conjI allI impI)
  show "try_body ''I'' (init (''(col1,col2) values ('' @ squote ''a'')) =
     Raise (StopIteration I_value)
       \<lparr>tk = [], fields' = [''col1'', ''col2''], values' = [squote ''a'']\<rparr>"
    by (rule run_insert_unclosed)
  show "parse_sql ''I'' (''(col1,col2) values ('' @ squote ''a'') = Inl SyntaxError"
    using parse_sql_check [OF run_insert_unclosed] by simp
next
  fix op sql m assume "parse_sql op sql = Inr m"
  from parse_sql_Inr [OF this] obtain x st where
    t: "try_body op (init sql) = Raise (StopIteration x) st"
    and len: "length (fields' st) = length (values' st)"
    and u: "unquote_data (fields' st) (values' st) = Inr m" by blast
  from unquote_data_all [OF u len] t u
  show "\<exists>x st. try_body op (init sql) = Raise (StopIteration x) st \<and>
              unquote_data (fields' st) (values' st) = Inr m \<and>
              (\<forall>k \<in> set (fields' st). \<exists>k'. unquote_key k = Inr k' \<and> k' \<in> dom m) \<and>
              (\<forall>v \<in> set (values' st). \<exists>v'. unquote_value v = Inr v')"
    by blast
qed

theorem C5_no_partial_result_witness:
  "\<exists>x st. try_body ''D'' (init ''a = 1'') = Raise (StopIteration x) st \<and>
          unquote_data (fields' st) (values' st) = Inr [''a'' \<mapsto> PyStr ''1'']"
  using C5_no_partial_result parse_delete_one by blast

subsection \<open>C6: the Update example\<close>

text \<open>
  C6. The Update fragment \<open>col1 = 'x', col2 = null where pk = '1'\<close> parses to the mapping
  of col1 to "x", col2 to \<open>None\<close> and pk to "1", and nothing else.
\<close>

theorem C6_update_example:
  "parse_sql ''U'' (''col1 = '' @ squote ''x'' @ '', col2 = null where pk = '' @ squote ''1'') =
     Inr [''col1'' \<mapsto> PyStr ''x'', ''col2'' \<mapsto> PyNone, ''pk'' \<mapsto> PyStr ''1'']"
  using parse_sql_stop [OF run_update_example] by (simp add: unquote_example)

theorem C6_update_example_witness:
  "\<exists>m. parse_sql ''U'' (''col1 = '' @ squote ''x'' @ '', col2 = null where pk = '' @ squote ''1'') = Inr m \<and>
       m ''col1'' = Some (PyStr ''x'') \<and> m ''col2'' = Some PyNone \<and> m ''pk'' = Some (PyStr ''1'') \<and>
       dom m = {''col1'', ''col2'', ''pk''}"
  using C6_update_example by auto

subsection \<open>C7: what unescape replaces\<close>

text \<open>
  C7, as the code has it. Let \<open>pre\<close> be a text that \<open>unescape\<close> decodes to \<open>out\<close> and that does
  not end in a backslash. After \<open>pre\<close>, a backslash and three octal digits of value
  \<open>n < 256\<close> become the character of code \<open>n\<close>, and a backslash and a character of the table
  become the table's character; the decoding goes on with the rest. With \<open>n\<close> from 256 on
  (\<open>\400\<close> to \<open>\777\<close>) \<open>chr\<close> raises. The two examples: \<open>a\tb\<close> gives a, tab, b and
  \<open>\101\<close> gives A.
\<close>

theorem C7_unescape:
  assumes "unescape pre = Inr out" and "pre = [] \<or> last pre \<noteq> CHR 0x5C"
  shows "(list_all (in_class octal_chars) [d1, d2, d3] \<and> int8 [d1, d2, d3] = Inr n \<and> n < 256 \<longrightarrow>
            unescape (pre @ CHR 0x5C # d1 # d2 # d3 # rest) =
              (case unescape rest of Inl e \<Rightarrow> Inl e | Inr r \<Rightarrow> Inr (out @ char_of n # r))) \<and>
         (list_all (in_class octal_chars) [d1, d2, d3] \<and> int8 [d1, d2, d3] = Inr n \<and> 256 \<le> n \<longrightarrow>
            unescape (pre @ CHR 0x5C # d1 # d2 # d3 # rest) = Inl ValueError) \<and>
         (map_of esc_map [c] = Some x \<longrightarrow>
            unescape (pre @ CHR 0x5C # c # rest) =
              (case unescape rest of Inl e \<Rightarrow> Inl e | Inr r \<Rightarrow> Inr (out @ x @ r))) \<and>
         unescape [CHR ''a'', CHR 0x5C, CHR ''t'', CHR ''b''] = Inr [CHR ''a'', CHR 0x09, CHR ''b''] \<and>
         unescape [CHR 0x5C, CHR ''1'', CHR ''0'', CHR ''1''] = Inr ''A''"
proof (intro conjI impI)
  assume a: "list_all (in_class octal_chars) [d1, d2, d3] \<and> int8 [d1, d2, d3] = Inr n \<and> n < 256"
  then have "unescape (CHR 0x5C # d1 # d2 # d3 # rest) =
      (case unescape rest of Inl e \<Rightarrow> Inl e | Inr r \<Rightarrow> Inr (char_of n # r))"
    by (simp add: unescape_octal sub_unescape_octal chr_byte split: sum.splits)
  with unescape_append [OF assms, of "CHR 0x5C # d1 # d2 # d3 # rest"]
  show "unescape (pre @ CHR 0x5C # d1 # d2 # d3 # rest) =
      (case unescape rest of Inl e \<Rightarrow> Inl e | Inr r \<Rightarrow> Inr (out @ char_of n # r))"
    by (simp split: sum.splits)
next
  assume a: "list_all (in_class octal_chars) [d1, d2, d3] \<and> int8 [d1, d2, d3] = Inr n \<and> 256 \<le> n"
  then have "unescape (CHR 0x5C # d1 # d2 # d3 # rest) = Inl ValueError"
    by (simp add: unescape_octal sub_unescape_octal chr_def)
  with unescape_append [OF assms, of "CHR 0x5C # d1 # d2 # d3 # rest"]
  show "unescape (pre @ CHR 0x5C # d1 # d2 # d3 # rest) = Inl ValueError"
    by simp
next
  assume x: "map_of esc_map [c] = Some x"
  have "\<not> (\<exists>d2 d3 r. rest = d2 # d3 # r \<and> list_all (in_class octal_chars) [c, d2, d3])"
    using esc_map_not_octal [OF x] by simp
  from unescape_single [OF esc_map_not_newline [OF x] this] x
  have "unescape (CHR 0x5C # c # rest) =
      (case unescape rest of Inl e \<Rightarrow> Inl e | Inr r \<Rightarrow> Inr (x @ r))"
    by (simp add: sub_unescape_single)
  with unescape_append [OF assms, of "CHR 0x5C # c # rest"]
  show "unescape (pre @ CHR 0x5C # c # rest) =
      (case unescape rest of Inl e \<Rightarrow> Inl e | Inr r \<Rightarrow> Inr (out @ x @ r))"
    by (simp split: sum.splits)
next
  show "unescape [CHR ''a'', CHR 0x5C, CHR ''t'', CHR ''b''] = Inr [CHR ''a'', CHR 0x09, CHR ''b'']"
    by (rule unescape_tab)
  show "unescape [CHR 0x5C, CHR ''1'', CHR ''0'', CHR ''1''] = Inr ''A''"
    by (rule unescape_101)
qed

theorem C7_unescape_witness:
  "unescape (''a'' @ CHR 0x5C # CHR ''1'' # CHR ''0'' # CHR ''1'' # ''a'') = Inr ''aAa'' \<and>
   unescape (''a'' @ CHR 0x5C # CHR ''n'' # ''a'') = Inr (''a'' @ [CHR 0x0A] @ ''a'') \<and>
   unescape (''a'' @ CHR 0x5C # CHR ''4'' # CHR ''0'' # CHR ''0'' # ''a'') = Inl ValueError"
proof -
  have p: "''a'' = [] \<or> last ''a'' \<noteq> CHR 0x5C" by simp
  have m: "map_of esc_map ''n'' = Some [CHR 0x0A]" by (simp add: esc_map_def)
  have c: "char_of (65 :: nat) = CHR ''A''" by code_simp
  from C7_unescape [OF unescape_a p, of "CHR ''1''" "CHR ''0''" "CHR ''1''" 65 "''a''" "CHR ''n''" "[CHR 0x0A]"]
    C7_unescape [OF unescape_a p, of "CHR ''4''" "CHR ''0''" "CHR ''0''" 256 "''a''"]
    octal_101 int8_101 octal_400 int8_400 m c unescape_a
  show ?thesis by simp
qed

text \<open>
  As stated, C7 gives every backslash with three octal digits a character. \<open>\400\<close> is
  three octal digits, of value 256, and \<open>unescape\<close> raises on it.
\<close>

theorem C7_unescape_counterexample:
  "list_all (in_class octal_chars) ''400'' \<and> int8 ''400'' = Inr 256 \<and>
   unescape [CHR 0x5C, CHR ''4'', CHR ''0'', CHR ''0''] = Inl ValueError"
  by (intro conjI octal_400 int8_400 unescape_400)

subsection \<open>C8: an escape outside the table\<close>




subsection \<open>C9: an operation tag that is none of I, U, D\<close>

text \<open>
  C9. For a tag other than "I", "U" and "D" no driver runs: the chain of comparisons
  leaves the state as it was, with every token still in the generator and both lists
  empty, and \<open>parse_sql\<close> raises the syntax error.
\<close>

theorem C9_unknown_tag:
  assumes "op \<notin> {''I'', ''U'', ''D''}"
  shows "dispatch op (init sql) = Done (init sql) \<and>
         try_body op (init sql) = Raise SyntaxError (init sql) \<and>
         tk (init sql) = tokenizer sql \<and> fields' (init sql) = [] \<and> values' (init sql) = [] \<and>
         parse_sql op sql = Inl SyntaxError"
  using assms by (simp add: dispatch_def try_body_def parse_sql_def init_def)

theorem C9_unknown_tag_witness:
  "try_body ''X'' (init ''a = 1'') = Raise SyntaxError (init ''a = 1'') \<and>
   parse_sql ''X'' ''a = 1'' = Inl SyntaxError"
proof -
  have "''X'' \<notin> {''I'', ''U'', ''D''}" by simp
  from C9_unknown_tag [OF this, of "''a = 1''"] show ?thesis by simp
qed

subsection \<open>C10: tokens are not empty\<close>

text \<open>
  C10. No token of the tokenizer is the empty string. So in the two lists a driver leaves,
  \<open>k[0]\<close> and \<open>v[0]\<close> are always in range: the assembler raises no \<open>IndexError\<close> on any
  field or value, and \<open>parse_sql\<close> never raises one.
\<close>

theorem C10_tokens_nonempty:
  "[] \<notin> set (tokenizer sql) \<and>
   (\<forall>k \<in> set (fields' (final (try_body op (init sql)))). unquote_key k \<noteq> Inl IndexError) \<and>
   (\<forall>v \<in> set (values' (final (try_body op (init sql)))). unquote_value v \<noteq> Inl IndexError) \<and>
   parse_sql op sql \<noteq> Inl IndexError"
proof -
  let ?st = "final (try_body op (init sql))"
  have ne: "[] \<notin> set (fields' ?st) \<and> [] \<notin> set (values' ?st)"
    using dispatch_nonempty [of "init sql" op] tokenizer_nonempty [of sql]
    by (simp add: try_body_final init_def)
  have k: "\<forall>k \<in> set (fields' ?st). unquote_key k \<noteq> Inl IndexError"
  proof
    fix k assume "k \<in> set (fields' ?st)"
    with ne have "k \<noteq> []" by auto
    with unquote_key_errors [of k IndexError] show "unquote_key k \<noteq> Inl IndexError" by auto
  qed
  have v: "\<forall>v \<in> set (values' ?st). unquote_value v \<noteq> Inl IndexError"
  proof
    fix v assume "v \<in> set (values' ?st)"
    with ne have "v \<noteq> []" by auto
    with unquote_value_errors [of v IndexError] show "unquote_value v \<noteq> Inl IndexError" by auto
  qed
  have p: "parse_sql op sql \<noteq> Inl IndexError"
  proof (cases "try_body op (init sql)")
    case (Done st)
    then show ?thesis by (simp add: try_body_not_Done)
  next
    case (Raise e st)
    then have st: "?st = st" by simp
    from try_body_raises [OF Raise] show ?thesis
    proof
      assume "e = SyntaxError"
      with Raise show ?thesis by (simp add: parse_sql_def)
    next
      assume "\<exists>x. e = StopIteration x"
      then obtain x where e: "e = StopIteration x" ..
      show ?thesis
      proof (cases "fields' st = [] \<or> length (fields' st) \<noteq> length (values' st)")
        case True
        with Raise e show ?thesis by (auto simp: parse_sql_def)
      next
        case False
        with Raise e have "parse_sql op sql = unquote_data (fields' st) (values' st)"
          by (simp add: parse_sql_def)
        moreover have "unquote_data (fields' st) (values' st) \<noteq> Inl IndexError"
          using unquote_data_errors [of "fields' st" "values' st" IndexError] ne st by auto
        ultimately show ?thesis by simp
      qed
    qed
  qed
  from tokenizer_nonempty k v p show ?thesis by blast
qed

theorem C10_tokens_nonempty_witness:
  "[] \<notin> set (tokenizer ''a = 1'') \<and> unquote_key ''a'' \<noteq> Inl IndexError \<and>
   unquote_value ''1'' \<noteq> Inl IndexError \<and> parse_sql ''D'' ''a = 1'' \<noteq> Inl IndexError"
  using C10_tokens_nonempty [of "''a = 1''" "''D''"] by (simp add: run_delete_one)

end
